theory Spec2Isabelle
  imports Complex_Main "HOL-Library.DAList"
begin

section \<open>Bulk URL processing: the job table and its worker\<close>

text \<open>
  This theory embeds \<^verbatim>\<open>bulk_processor.py\<close>: the class \<^verbatim>\<open>BulkProcessor\<close> with
  \<^verbatim>\<open>create_job\<close>, \<^verbatim>\<open>_process_job\<close>, \<^verbatim>\<open>get_job_status\<close> and
  \<^verbatim>\<open>cleanup_old_jobs\<close>.

  Conventions of the embedding:
  \<^item> A job is a Python dict, that is, a mutable object. Objects live in a store
    (\<open>heap\<close>, from references to records); the table \<^verbatim>\<open>self.jobs\<close> maps a job id to
    the reference of its dict, as Python does. A Python reference always denotes an
    object, so the store is a total function; cells that were never handed out hold a
    filler.
  \<^item> \<^verbatim>\<open>self.jobs\<close> is a dict: keys are distinct and keep their insertion order. It is
    a distinct association list.
  \<^item> The worker writes to the job dict only inside \<^verbatim>\<open>with self.lock:\<close> blocks. It
    reads \<^verbatim>\<open>urls\<close> and \<^verbatim>\<open>generate_observations\<close> once, after its first block; what
    it does afterwards depends on them and on the collaborators only. The worker is
    therefore the sequence of its blocks, each a list of assignments, in program order.
    Running a worker from its first block to the end of the function or to the
    exception that leaves it, with no other thread writing to its dict in between, is
    \<open>process_job\<close>.
  \<^item> The collaborators (\<^verbatim>\<open>diagnose_site\<close>, \<^verbatim>\<open>generate_technical_observation\<close>,
    \<^verbatim>\<open>urlparse\<close>, the file system, the clocks) are inputs: a \<open>world\<close> says, for the
    URL at each position, what each call returns or raises. An exception is either an
    instance of Python's \<^verbatim>\<open>Exception\<close>, the class the three handlers of the worker
    name, or one that only derives from \<^verbatim>\<open>BaseException\<close> and passes them; of an
    exception only \<^verbatim>\<open>str(e)\<close> is used, and \<^verbatim>\<open>str(e)\<close> does not raise.
  \<^item> \<^verbatim>\<open>datetime.now().isoformat()\<close> followed by \<^verbatim>\<open>datetime.fromisoformat\<close> gives
    the datetime back, so a timestamp is kept as the datetime itself, a count of
    microseconds. The age in hours is the exact quotient, where Python rounds it to a
    double.
  \<^item> The worker's calls of \<^verbatim>\<open>print\<close> on lines 76, 88, 106 and 123 may raise (standard
    output closed, or unable to encode the URL or the message): they are collaborators
    too. What they write is left out. The \<^verbatim>\<open>print\<close> on line 144 comes after the last
    assignment and cannot change the record. The line printed by
    \<^verbatim>\<open>cleanup_old_jobs\<close> is kept as text and taken not to raise.
\<close>

subsection \<open>Data\<close>

type_synonym timestamp = int

type_synonym ref = nat

text \<open>
  \<open>Exception msg\<close> is an instance of \<^verbatim>\<open>Exception\<close> whose \<^verbatim>\<open>str\<close> is \<open>msg\<close>;
  \<open>BaseException msg\<close> is an exception that is not an instance of \<^verbatim>\<open>Exception\<close>
  (\<^verbatim>\<open>SystemExit\<close>, \<^verbatim>\<open>KeyboardInterrupt\<close>, \<^verbatim>\<open>asyncio.CancelledError\<close>). The clause
  \<^verbatim>\<open>except Exception as e\<close> catches the first kind only.
\<close>

datatype exn = Exception (message: string) | BaseException (message: string)

fun caught :: "exn \<Rightarrow> bool" where
  "caught (Exception msg) = True"
| "caught (BaseException msg) = False"

datatype pyval = PyNone | PyInt int

text \<open>
  The values the code assigns to \<^verbatim>\<open>job['status']\<close>. The comment on line 44 also lists
  \<^verbatim>\<open>failed\<close>, which no statement assigns.
\<close>

datatype job_status = Queued | Processing | Completed

text \<open>
  The dict returned by \<^verbatim>\<open>diagnose_site\<close>. The worker reads the key
  \<^verbatim>\<open>vulnerability_detected\<close> and may add \<^verbatim>\<open>technical_observation\<close>,
  \<^verbatim>\<open>output_file\<close>, \<^verbatim>\<open>saved\<close> and \<^verbatim>\<open>save_error\<close>; an absent key is \<open>None\<close>.
  Everything else in the dict is the opaque \<open>report\<close>.
\<close>

record result =
  report :: string
  vulnerability_detected :: bool
  technical_observation :: "string option"
  output_file :: "string option"
  saved :: "bool option"
  save_error :: "string option"

text \<open>An entry of \<^verbatim>\<open>job['results']\<close>: status \<^verbatim>\<open>'success'\<close> or \<^verbatim>\<open>'error'\<close>.\<close>

datatype outcome =
  Success string result
| Error string string

record job =
  job_id :: string
  urls :: "string list"
  job_total :: int
  completed :: int
  successful :: int
  failed :: int
  current_url :: "string option"
  status :: job_status
  results :: "outcome list"
  errors :: "(string \<times> string) list"
  started_at :: timestamp
  completed_at :: "timestamp option"
  generate_observations :: bool

record processor =
  heap :: "ref \<Rightarrow> job"
  next_ref :: ref
  jobs :: "(string, ref) alist"

text \<open>
  What the outside does for the URL at position \<open>idx\<close> (counted from 1):
  \<^item> \<open>diagnose_site\<close>: line 79;
  \<^item> \<open>generate_technical_observation\<close>: line 84, returning a string or \<^verbatim>\<open>None\<close>;
  \<^item> \<open>prepare_output\<close>: lines 91 to 98, \<^verbatim>\<open>urlparse\<close>, the file name and
    \<^verbatim>\<open>os.makedirs\<close>; it returns the file name;
  \<^item> \<open>write_json\<close>: lines 101 and 102, \<^verbatim>\<open>open\<close> and \<^verbatim>\<open>json.dump\<close>; \<open>None\<close> when
    nothing is raised;
  \<^item> \<open>print_processing\<close>, \<open>print_observation_failed\<close>, \<open>print_save_failed\<close> and
    \<open>print_error\<close>: the calls of \<^verbatim>\<open>print\<close> on lines 76, 88, 106 and 123; \<open>None\<close> when
    nothing is raised.
\<close>

record world =
  diagnose_site :: "int \<Rightarrow> string \<Rightarrow> exn + result"
  generate_technical_observation :: "int \<Rightarrow> result \<Rightarrow> exn + string option"
  prepare_output :: "int \<Rightarrow> string \<Rightarrow> exn + string"
  write_json :: "int \<Rightarrow> string \<Rightarrow> result \<Rightarrow> exn option"
  print_processing :: "int \<Rightarrow> string \<Rightarrow> exn option"
  print_observation_failed :: "int \<Rightarrow> string \<Rightarrow> exn option"
  print_save_failed :: "int \<Rightarrow> string \<Rightarrow> exn option"
  print_error :: "int \<Rightarrow> string \<Rightarrow> exn option"

subsection \<open>Decimal rendering of integers\<close>

definition digit_char :: "nat \<Rightarrow> char" where
  "digit_char d = ''0123456789'' ! d"

fun str_nat :: "nat \<Rightarrow> string" where
  "str_nat n = (if n < 10 then [digit_char n] else str_nat (n div 10) @ [digit_char (n mod 10)])"

definition str_int :: "int \<Rightarrow> string" where
  "str_int i = (if i < 0 then CHR ''-'' # str_nat (nat (- i)) else str_nat (nat i))"

subsection \<open>\<^verbatim>\<open>create_job\<close>\<close>

text \<open>
  \<open>clock_ms\<close> is \<^verbatim>\<open>int(time.time() * 1000)\<close> and \<open>now\<close> is \<^verbatim>\<open>datetime.now()\<close>, both read
  during the call. The record keeps the list it was given; the caller is taken not to
  change that list afterwards.
\<close>

definition new_job :: "string \<Rightarrow> string list \<Rightarrow> bool \<Rightarrow> timestamp \<Rightarrow> job" where
  "new_job jid us gen now =
     \<lparr> job_id = jid, urls = us, job_total = int (length us), completed = 0,
       successful = 0, failed = 0, current_url = None, status = Queued,
       results = [], errors = [], started_at = now, completed_at = None,
       generate_observations = gen \<rparr>"

definition create_job ::
    "string list \<Rightarrow> bool \<Rightarrow> int \<Rightarrow> timestamp \<Rightarrow> processor \<Rightarrow> string \<times> processor" where
  "create_job us gen clock_ms now P =
     (let jid = ''job_'' @ str_int clock_ms;
          r = next_ref P
      in (jid, P\<lparr> heap := (heap P)(r := new_job jid us gen now),
                  next_ref := Suc r,
                  jobs := DAList.update jid r (jobs P) \<rparr>))"

text \<open>
  The thread started at the end of \<^verbatim>\<open>create_job\<close> runs \<^verbatim>\<open>_process_job(job_id)\<close>
  later; it is the function \<open>process_job\<close> below, applied to a later state.
\<close>

subsection \<open>\<^verbatim>\<open>_process_job\<close>\<close>

text \<open>
  Lines 82 to 88. The inner handler catches an \<^verbatim>\<open>Exception\<close> of the generator and
  prints; an exception it does not catch, or one raised by its \<^verbatim>\<open>print\<close>, leaves the
  block.
\<close>

definition add_observation :: "world \<Rightarrow> bool \<Rightarrow> int \<Rightarrow> string \<Rightarrow> result \<Rightarrow> exn + result" where
  "add_observation w gen idx url res =
     (if gen \<and> vulnerability_detected res then
        (case generate_technical_observation w idx res of
           Inr None \<Rightarrow> Inr res
         | Inr (Some obs) \<Rightarrow>
             Inr (if obs \<noteq> [] then res\<lparr>technical_observation := Some obs\<rparr> else res)
         | Inl e \<Rightarrow>
             if caught e then
               (case print_observation_failed w idx url of
                  Some e' \<Rightarrow> Inl e'
                | None \<Rightarrow> Inr res)
             else Inl e)
      else Inr res)"

text \<open>
  Lines 91 to 108. Only \<^verbatim>\<open>open\<close> and \<^verbatim>\<open>json.dump\<close> are inside the inner
  \<^verbatim>\<open>try\<close>; an exception of \<^verbatim>\<open>urlparse\<close> or \<^verbatim>\<open>os.makedirs\<close> leaves the block, and
  so does one the inner handler does not catch or one raised by its \<^verbatim>\<open>print\<close>.
\<close>

definition save_result :: "world \<Rightarrow> int \<Rightarrow> string \<Rightarrow> result \<Rightarrow> exn + result" where
  "save_result w idx url res =
     (case prepare_output w idx url of
        Inl e \<Rightarrow> Inl e
      | Inr filename \<Rightarrow>
          (case write_json w idx filename res of
             None \<Rightarrow> Inr (res\<lparr>output_file := Some filename, saved := Some True\<rparr>)
           | Some e \<Rightarrow>
               if caught e then
                 (case print_save_failed w idx url of
                    Some e' \<Rightarrow> Inl e'
                  | None \<Rightarrow> Inr (res\<lparr>saved := Some False, save_error := Some (message e)\<rparr>))
               else Inl e))"

text \<open>
  Lines 76 to 108, the part of the outer \<^verbatim>\<open>try\<close> body between its two locked blocks:
  \<open>Inl e\<close> is the exception that leaves the body.
\<close>

definition attempt :: "world \<Rightarrow> bool \<Rightarrow> int \<Rightarrow> string \<Rightarrow> exn + result" where
  "attempt w gen idx url =
     (case print_processing w idx url of
        Some e \<Rightarrow> Inl e
      | None \<Rightarrow>
          (case diagnose_site w idx url of
             Inl e \<Rightarrow> Inl e
           | Inr res \<Rightarrow>
               (case add_observation w gen idx url res of
                  Inl e \<Rightarrow> Inl e
                | Inr res' \<Rightarrow> save_result w idx url res')))"

text \<open>
  The \<^verbatim>\<open>try\<close> statement of one iteration, lines 70 to 136, apart from its locked
  blocks. The body ends and the success block follows; or the body raises an
  \<^verbatim>\<open>Exception\<close>, the handler's \<^verbatim>\<open>print\<close> on line 123 works and the error block
  follows; or an exception leaves \<^verbatim>\<open>_process_job\<close> and ends the thread: one the
  handler does not catch, or one raised by the handler's own \<^verbatim>\<open>print\<close>, which no
  \<^verbatim>\<open>try\<close> encloses.
\<close>

datatype verdict = Succeeded result | Failed exn | Escaped exn

definition try_url :: "world \<Rightarrow> bool \<Rightarrow> int \<Rightarrow> string \<Rightarrow> verdict" where
  "try_url w gen idx url =
     (case attempt w gen idx url of
        Inr res \<Rightarrow> Succeeded res
      | Inl e \<Rightarrow>
          if caught e then
            (case print_error w idx url of
               Some e' \<Rightarrow> Escaped e'
             | None \<Rightarrow> Failed e)
          else Escaped e)"

text \<open>Running a list of updates on one record, the first of the list first.\<close>

abbreviation run :: "(job \<Rightarrow> job) list \<Rightarrow> job \<Rightarrow> job" where
  "run fs j \<equiv> fold (\<lambda>f s. f s) fs j"

text \<open>
  The assignments inside each \<^verbatim>\<open>with self.lock:\<close> block, in the order of the source:
  line 64, lines 73-74, lines 112-118, lines 126-136 and lines 140-142.
\<close>

definition mark_processing_writes :: "(job \<Rightarrow> job) list" where
  "mark_processing_writes = [\<lambda>j. j\<lparr>status := Processing\<rparr>]"

definition begin_url_writes :: "int \<Rightarrow> string \<Rightarrow> (job \<Rightarrow> job) list" where
  "begin_url_writes idx url =
     [\<lambda>j. j\<lparr>current_url := Some url\<rparr>,
      \<lambda>j. j\<lparr>completed := idx - 1\<rparr>]"

definition add_success_writes :: "int \<Rightarrow> string \<Rightarrow> result \<Rightarrow> (job \<Rightarrow> job) list" where
  "add_success_writes idx url res =
     [\<lambda>j. j\<lparr>results := results j @ [Success url res]\<rparr>,
      \<lambda>j. j\<lparr>successful := successful j + 1\<rparr>,
      \<lambda>j. j\<lparr>completed := idx\<rparr>]"

definition add_error_writes :: "int \<Rightarrow> string \<Rightarrow> exn \<Rightarrow> (job \<Rightarrow> job) list" where
  "add_error_writes idx url e =
     [\<lambda>j. j\<lparr>results := results j @ [Error url (message e)]\<rparr>,
      \<lambda>j. j\<lparr>failed := failed j + 1\<rparr>,
      \<lambda>j. j\<lparr>completed := idx\<rparr>,
      \<lambda>j. j\<lparr>errors := errors j @ [(url, message e)]\<rparr>]"

definition mark_completed_writes :: "timestamp \<Rightarrow> (job \<Rightarrow> job) list" where
  "mark_completed_writes now =
     [\<lambda>j. j\<lparr>status := Completed\<rparr>,
      \<lambda>j. j\<lparr>completed_at := Some now\<rparr>,
      \<lambda>j. j\<lparr>current_url := None\<rparr>]"

text \<open>A locked block as one update: a thread that takes the lock sees all of it or none.\<close>

definition mark_processing :: "job \<Rightarrow> job" where
  "mark_processing j = run mark_processing_writes j"

definition begin_url :: "int \<Rightarrow> string \<Rightarrow> job \<Rightarrow> job" where
  "begin_url idx url j = run (begin_url_writes idx url) j"

definition add_success :: "int \<Rightarrow> string \<Rightarrow> result \<Rightarrow> job \<Rightarrow> job" where
  "add_success idx url res j = run (add_success_writes idx url res) j"

definition add_error :: "int \<Rightarrow> string \<Rightarrow> exn \<Rightarrow> job \<Rightarrow> job" where
  "add_error idx url e j = run (add_error_writes idx url e) j"

definition mark_completed :: "timestamp \<Rightarrow> job \<Rightarrow> job" where
  "mark_completed now j = run (mark_completed_writes now) j"

text \<open>
  The loop \<^verbatim>\<open>for idx, url in enumerate(urls, 1)\<close>: the locked blocks it executes, two
  per URL, up to the end of the list or to the iteration an exception leaves.
\<close>

fun url_steps :: "world \<Rightarrow> bool \<Rightarrow> int \<Rightarrow> string list \<Rightarrow> (job \<Rightarrow> job) list" where
  "url_steps w gen idx [] = []"
| "url_steps w gen idx (url # rest) =
     (case try_url w gen idx url of
        Succeeded res \<Rightarrow>
          begin_url idx url # add_success idx url res # url_steps w gen (idx + 1) rest
      | Failed e \<Rightarrow>
          begin_url idx url # add_error idx url e # url_steps w gen (idx + 1) rest
      | Escaped e \<Rightarrow> [begin_url idx url])"

text \<open>The exception that leaves the loop, and with it \<^verbatim>\<open>_process_job\<close>, if there is one.\<close>

fun escapes :: "world \<Rightarrow> bool \<Rightarrow> int \<Rightarrow> string list \<Rightarrow> exn option" where
  "escapes w gen idx [] = None"
| "escapes w gen idx (url # rest) =
     (case try_url w gen idx url of
        Succeeded res \<Rightarrow> escapes w gen (idx + 1) rest
      | Failed e \<Rightarrow> escapes w gen (idx + 1) rest
      | Escaped e \<Rightarrow> Some e)"

text \<open>
  All locked blocks one worker executes, for the job dict \<open>j\<close> it found in the table.
  The last block, lines 139 to 142, is reached when no exception has left the loop;
  \<open>now\<close> is \<^verbatim>\<open>datetime.now()\<close> on line 141.
\<close>

definition worker_steps :: "world \<Rightarrow> timestamp \<Rightarrow> job \<Rightarrow> (job \<Rightarrow> job) list" where
  "worker_steps w now j =
     mark_processing # url_steps w (generate_observations j) 1 (urls j) @
     (case escapes w (generate_observations j) 1 (urls j) of
        None \<Rightarrow> [mark_completed now]
      | Some e \<Rightarrow> [])"



text \<open>A locked block of the worker updates the object behind the reference it holds.\<close>

definition update_job :: "ref \<Rightarrow> (job \<Rightarrow> job) \<Rightarrow> processor \<Rightarrow> processor" where
  "update_job r f P = P\<lparr>heap := (heap P)(r := f (heap P r))\<rparr>"

text \<open>
  \<^verbatim>\<open>_process_job\<close>, run without another thread in between, up to its return or to the
  exception that ends its thread. An id that is not in the table returns at once
  (line 62).
\<close>

definition process_job :: "world \<Rightarrow> timestamp \<Rightarrow> string \<Rightarrow> processor \<Rightarrow> processor" where
  "process_job w now jid P =
     (case DAList.lookup (jobs P) jid of
        None \<Rightarrow> P
      | Some r \<Rightarrow> fold (update_job r) (worker_steps w now (heap P r)) P)"

text \<open>The contents of a record before the first and after each of a list of updates.\<close>

fun job_states :: "(job \<Rightarrow> job) list \<Rightarrow> job \<Rightarrow> job list" where
  "job_states [] j = [j]"
| "job_states (f # fs) j = j # job_states fs (f j)"

text \<open>The record left by the loop over the first \<open>k\<close> URLs.\<close>

definition job_after :: "world \<Rightarrow> job \<Rightarrow> nat \<Rightarrow> job" where
  "job_after w j k =
     fold (\<lambda>f s. f s) (url_steps w (generate_observations j) 1 (take k (urls j)))
       (mark_processing j)"

text \<open>
  What the iteration for one URL appends to \<^verbatim>\<open>job['results']\<close>, if it appends
  something, and the entries the loop appends for a batch whose first URL has position
  \<open>idx\<close>.
\<close>

definition recorded :: "world \<Rightarrow> bool \<Rightarrow> int \<Rightarrow> string \<Rightarrow> outcome option" where
  "recorded w gen idx url =
     (case try_url w gen idx url of
        Succeeded res \<Rightarrow> Some (Success url res)
      | Failed e \<Rightarrow> Some (Error url (message e))
      | Escaped e \<Rightarrow> None)"

fun outcomes :: "world \<Rightarrow> bool \<Rightarrow> int \<Rightarrow> string list \<Rightarrow> outcome list" where
  "outcomes w gen idx [] = []"
| "outcomes w gen idx (url # rest) =
     (case recorded w gen idx url of
        Some x \<Rightarrow> x # outcomes w gen (idx + 1) rest
      | None \<Rightarrow> [])"

fun is_success :: "outcome \<Rightarrow> bool" where
  "is_success (Success url res) = True"
| "is_success (Error url msg) = False"

fun outcome_url :: "outcome \<Rightarrow> string" where
  "outcome_url (Success url res) = url"
| "outcome_url (Error url msg) = url"

text \<open>The entries of \<^verbatim>\<open>job['errors']\<close> that belong to a list of outcomes.\<close>

fun failure_entries :: "outcome list \<Rightarrow> (string \<times> string) list" where
  "failure_entries [] = []"
| "failure_entries (Success url res # os) = failure_entries os"
| "failure_entries (Error url msg # os) = (url, msg) # failure_entries os"

subsection \<open>\<^verbatim>\<open>get_job_status\<close>\<close>

text \<open>\<^verbatim>\<open>self.jobs.get(job_id)\<close>: the reference stored in the table, or \<^verbatim>\<open>None\<close>.\<close>

definition get_job_status :: "processor \<Rightarrow> string \<Rightarrow> ref option" where
  "get_job_status P jid = DAList.lookup (jobs P) jid"

subsection \<open>\<^verbatim>\<open>cleanup_old_jobs\<close>\<close>

text \<open>\<^verbatim>\<open>(current_time - completed_at).total_seconds() / 3600\<close>.\<close>

definition age_hours :: "timestamp \<Rightarrow> timestamp \<Rightarrow> rat" where
  "age_hours current_time c = of_int (current_time - c) / 1000000 / 3600"

text \<open>
  The scan of lines 165 to 170, collecting \<^verbatim>\<open>jobs_to_remove\<close>.
  \<^verbatim>\<open>datetime.fromisoformat(None)\<close> raises a \<^verbatim>\<open>TypeError\<close>.
\<close>

fun scan_jobs :: "(ref \<Rightarrow> job) \<Rightarrow> timestamp \<Rightarrow> int \<Rightarrow> (string \<times> ref) list \<Rightarrow> exn + string list" where
  "scan_jobs h current_time max_age_hours [] = Inr []"
| "scan_jobs h current_time max_age_hours ((jid, r) # rest) =
     (if status (h r) = Completed then
        (case completed_at (h r) of
           None \<Rightarrow> Inl (Exception ''fromisoformat: argument must be str'')
         | Some c \<Rightarrow>
             (case scan_jobs h current_time max_age_hours rest of
                Inl e \<Rightarrow> Inl e
              | Inr ids \<Rightarrow>
                  Inr (if age_hours current_time c > of_int max_age_hours
                       then jid # ids else ids)))
      else scan_jobs h current_time max_age_hours rest)"

record cleanup_result =
  returned :: pyval
  printed :: "string list"
  table :: processor

definition cleanup_old_jobs :: "timestamp \<Rightarrow> int \<Rightarrow> processor \<Rightarrow> exn + cleanup_result" where
  "cleanup_old_jobs current_time max_age_hours P =
     (case scan_jobs (heap P) current_time max_age_hours (DAList.impl_of (jobs P)) of
        Inl e \<Rightarrow> Inl e
      | Inr jobs_to_remove \<Rightarrow>
          Inr \<lparr> returned = PyNone,
                printed = (if jobs_to_remove \<noteq> []
                           then [''Cleaned up '' @ str_nat (length jobs_to_remove) @ '' old jobs'']
                           else []),
                table = P\<lparr>jobs := fold DAList.delete jobs_to_remove (jobs P)\<rparr> \<rparr>)"

text \<open>A job is removed by the sweep when it is completed and older than the threshold.\<close>

definition expired :: "timestamp \<Rightarrow> int \<Rightarrow> job \<Rightarrow> bool" where
  "expired current_time max_age_hours j =
     (status j = Completed \<and>
      (case completed_at j of
         None \<Rightarrow> False
       | Some c \<Rightarrow> age_hours current_time c > of_int max_age_hours))"

text \<open>
  The worker sets \<open>completed_at\<close> in the locked block that sets the status
  \<open>Completed\<close>: a record never has the one without the other.
\<close>

definition stamped :: "job \<Rightarrow> bool" where
  "stamped j = (status j = Completed \<longrightarrow> completed_at j \<noteq> None)"

definition all_stamped :: "processor \<Rightarrow> bool" where
  "all_stamped P = (\<forall>(jid, r) \<in> set (DAList.impl_of (jobs P)). stamped (heap P r))"

text \<open>
  Two conditions on the collaborators: no \<^verbatim>\<open>print\<close> of the worker raises, and what the
  other collaborators raise is an instance of \<^verbatim>\<open>Exception\<close>.
\<close>

definition quiet_stdout :: "world \<Rightarrow> bool" where
  "quiet_stdout w =
     (\<forall>idx url. print_processing w idx url = None \<and> print_observation_failed w idx url = None \<and>
        print_save_failed w idx url = None \<and> print_error w idx url = None)"

definition raises_Exception_only :: "world \<Rightarrow> bool" where
  "raises_Exception_only w =
     (\<forall>idx url res filename e.
        (diagnose_site w idx url = Inl e \<longrightarrow> caught e) \<and>
        (generate_technical_observation w idx res = Inl e \<longrightarrow> caught e) \<and>
        (prepare_output w idx url = Inl e \<longrightarrow> caught e) \<and>
        (write_json w idx filename res = Some e \<longrightarrow> caught e))"

subsection \<open>Concrete states used in the examples\<close>

definition new_processor :: processor where
  "new_processor = \<lparr> heap = (\<lambda>r. new_job [] [] False 0), next_ref = 0, jobs = DAList.empty \<rparr>"

definition sample_result :: result where
  "sample_result =
     \<lparr> report = ''at_risk'', vulnerability_detected = True, technical_observation = None,
       output_file = None, saved = None, save_error = None \<rparr>"

text \<open>Every collaborator works.\<close>

definition quiet_world :: world where
  "quiet_world =
     \<lparr> diagnose_site = (\<lambda>idx url. Inr sample_result),
       generate_technical_observation = (\<lambda>idx res. Inr (Some ''outdated library'')),
       prepare_output = (\<lambda>idx url. Inr ''diagnosis_site.json''),
       write_json = (\<lambda>idx filename res. None),
       print_processing = (\<lambda>idx url. None),
       print_observation_failed = (\<lambda>idx url. None),
       print_save_failed = (\<lambda>idx url. None),
       print_error = (\<lambda>idx url. None) \<rparr>"

text \<open>The browser cannot be started: \<^verbatim>\<open>diagnose_site\<close> raises for every URL.\<close>

definition failing_world :: world where
  "failing_world = quiet_world\<lparr>diagnose_site := (\<lambda>idx url. Inl (Exception ''timeout''))\<rparr>"

text \<open>\<^verbatim>\<open>diagnose_site\<close> raises for the URL \<open>B\<close> only.\<close>

definition abc_world :: world where
  "abc_world =
     quiet_world\<lparr>diagnose_site :=
       (\<lambda>idx url. if url = ''B'' then Inl (Exception ''timeout'') else Inr sample_result)\<rparr>"

text \<open>
  The working directory is read-only: \<^verbatim>\<open>os.makedirs('results', exist_ok=True)\<close> raises
  a \<^verbatim>\<open>PermissionError\<close>.
\<close>

definition readonly_world :: world where
  "readonly_world =
     quiet_world\<lparr>prepare_output := (\<lambda>idx url. Inl (Exception ''Permission denied: results''))\<rparr>"

definition readonly_abc_world :: world where
  "readonly_abc_world =
     abc_world\<lparr>prepare_output := (\<lambda>idx url. Inl (Exception ''Permission denied: results''))\<rparr>"

text \<open>The observation service and the disk both fail; the directory exists.\<close>

definition degraded_world :: world where
  "degraded_world =
     quiet_world\<lparr>generate_technical_observation := (\<lambda>idx res. Inl (Exception ''rate limit'')),
                 write_json := (\<lambda>idx filename res. Some (Exception ''disk full''))\<rparr>"

text \<open>
  Three jobs: \<open>job_1\<close> is still queued, \<open>job_2\<close> was completed at 1000000 and \<open>job_3\<close>
  one microsecond earlier.
\<close>

definition sweep_table :: processor where
  "sweep_table =
     process_job quiet_world 999999 ''job_3''
       (process_job quiet_world 1000000 ''job_2''
         (snd (create_job [''c''] False 3 0
           (snd (create_job [''b''] False 2 0
             (snd (create_job [''a''] False 1 0 new_processor)))))))"

text \<open>
  Standard output cannot encode the URLs of the batch: every \<^verbatim>\<open>print\<close> that formats
  the URL raises a \<^verbatim>\<open>UnicodeEncodeError\<close>, an instance of \<^verbatim>\<open>Exception\<close>.
\<close>

definition ascii_stdout_world :: world where
  "ascii_stdout_world =
     quiet_world\<lparr>print_processing := (\<lambda>idx url. Some (Exception ''UnicodeEncodeError'')),
                 print_error := (\<lambda>idx url. Some (Exception ''UnicodeEncodeError''))\<rparr>"

text \<open>The browser driver is shut down under the worker: \<^verbatim>\<open>diagnose_site\<close> is cancelled.\<close>

definition cancelled_world :: world where
  "cancelled_world =
     quiet_world\<lparr>diagnose_site := (\<lambda>idx url. Inl (BaseException ''CancelledError''))\<rparr>"


text \<open>An assignment made by a caller through the dict that \<^verbatim>\<open>get_job_status\<close> returned.\<close>

definition caller_write :: "job \<Rightarrow> job" where
  "caller_write j = j\<lparr>current_url := Some ''edited by the caller''\<rparr>"

declare str_nat.simps [simp del]

section \<open>Properties\<close>

subsection \<open>The locked blocks as record updates\<close>

lemma mark_processing_eq: "mark_processing j = j\<lparr>status := Processing\<rparr>"
  by (simp add: mark_processing_def mark_processing_writes_def)

lemma begin_url_eq: "begin_url idx url j = j\<lparr>current_url := Some url, completed := idx - 1\<rparr>"
  by (simp add: begin_url_def begin_url_writes_def)

lemma add_success_eq:
  "add_success idx url res j =
     j\<lparr>results := results j @ [Success url res],
       successful := successful j + 1,
       completed := idx\<rparr>"
  by (simp add: add_success_def add_success_writes_def)

lemma add_error_eq:
  "add_error idx url e j =
     j\<lparr>results := results j @ [Error url (message e)],
       failed := failed j + 1,
       completed := idx,
       errors := errors j @ [(url, message e)]\<rparr>"
  by (simp add: add_error_def add_error_writes_def)

lemma mark_completed_eq:
  "mark_completed now j = j\<lparr>status := Completed, completed_at := Some now, current_url := None\<rparr>"
  by (simp add: mark_completed_def mark_completed_writes_def)

subsection \<open>Decimal rendering\<close>

lemma str_nat_digit: "n < 10 \<Longrightarrow> str_nat n = [digit_char n]"
  by (simp add: str_nat.simps)

lemma str_nat_step: "10 \<le> n \<Longrightarrow> str_nat n = str_nat (n div 10) @ [digit_char (n mod 10)]"
  by (simp add: str_nat.simps)

subsection \<open>The effect of the loop on each field\<close>

lemma failure_entries_append:
  "failure_entries (xs @ ys) = failure_entries xs @ failure_entries ys"
  by (induction xs rule: failure_entries.induct) simp_all

lemma run_url_steps_results:
  "results (run (url_steps w gen idx us) j) = results j @ outcomes w gen idx us"
  by (induction us arbitrary: idx j)
    (simp_all add: recorded_def begin_url_eq add_success_eq add_error_eq split: verdict.split)

lemma run_url_steps_successful:
  "successful (run (url_steps w gen idx us) j) =
     successful j + int (length (filter is_success (outcomes w gen idx us)))"
  by (induction us arbitrary: idx j)
    (simp_all add: recorded_def begin_url_eq add_success_eq add_error_eq split: verdict.split)

lemma run_url_steps_failed:
  "failed (run (url_steps w gen idx us) j) =
     failed j + int (length (filter (\<lambda>x. \<not> is_success x) (outcomes w gen idx us)))"
  by (induction us arbitrary: idx j)
    (simp_all add: recorded_def begin_url_eq add_success_eq add_error_eq split: verdict.split)

lemma run_url_steps_errors:
  "errors (run (url_steps w gen idx us) j) = errors j @ failure_entries (outcomes w gen idx us)"
  by (induction us arbitrary: idx j)
    (simp_all add: recorded_def begin_url_eq add_success_eq add_error_eq split: verdict.split)

lemma run_url_steps_completed:
  "completed (run (url_steps w gen idx us) j) =
     (if us = [] then completed j else idx + int (length (outcomes w gen idx us)) - 1)"
  by (induction us arbitrary: idx j)
    (simp_all add: recorded_def begin_url_eq add_success_eq add_error_eq split: verdict.split)

lemma run_url_steps_current_url:
  "escapes w gen idx us = Some e \<Longrightarrow>
     current_url (run (url_steps w gen idx us) j) = Some (us ! length (outcomes w gen idx us))"
  by (induction us arbitrary: idx j)
    (simp_all add: recorded_def begin_url_eq add_success_eq add_error_eq split: verdict.splits)

lemma run_url_steps_frame:
  "status (run (url_steps w gen idx us) j) = status j"
  "job_total (run (url_steps w gen idx us) j) = job_total j"
  "urls (run (url_steps w gen idx us) j) = urls j"
  "completed_at (run (url_steps w gen idx us) j) = completed_at j"
  "generate_observations (run (url_steps w gen idx us) j) = generate_observations j"
  "job_id (run (url_steps w gen idx us) j) = job_id j"
  "started_at (run (url_steps w gen idx us) j) = started_at j"
  by (induction us arbitrary: idx j)
    (simp_all add: begin_url_eq add_success_eq add_error_eq split: verdict.split)


lemma length_outcomes:
  "escapes w gen idx us = None \<Longrightarrow> length (outcomes w gen idx us) = length us"
  by (induction us arbitrary: idx) (simp_all add: recorded_def split: verdict.splits)

lemma length_outcomes_escapes:
  "escapes w gen idx us = Some e \<Longrightarrow> length (outcomes w gen idx us) < length us"
  by (induction us arbitrary: idx) (simp_all add: recorded_def split: verdict.splits)

lemma outcomes_nth:
  "k < length (outcomes w gen idx us) \<Longrightarrow>
     recorded w gen (idx + int k) (us ! k) = Some (outcomes w gen idx us ! k)"
proof (induction us arbitrary: idx k)
  case Nil then show ?case by simp
next
  case (Cons u us)
  from Cons.prems obtain x where x: "recorded w gen idx u = Some x"
    by (cases "recorded w gen idx u") simp_all
  show ?case
  proof (cases k)
    case 0 with x show ?thesis by simp
  next
    case (Suc m)
    with Cons.prems x have "m < length (outcomes w gen (idx + 1) us)" by simp
    from Cons.IH [OF this] Suc x show ?thesis by (simp add: add.assoc)
  qed
qed

lemma escapes_append:
  "escapes w gen idx (xs @ ys) =
     (case escapes w gen idx xs of
        Some e \<Rightarrow> Some e
      | None \<Rightarrow> escapes w gen (idx + int (length xs)) ys)"
  by (induction xs arbitrary: idx) (auto simp: add.assoc split: verdict.split option.split)

lemma url_steps_append:
  "escapes w gen idx xs = None \<Longrightarrow>
     url_steps w gen idx (xs @ ys) =
       url_steps w gen idx xs @ url_steps w gen (idx + int (length xs)) ys"
  by (induction xs arbitrary: idx) (simp_all add: add.assoc split: verdict.splits)

lemma escapes_take:
  "escapes w gen idx us = None \<Longrightarrow> escapes w gen idx (take k us) = None"
  using escapes_append [of w gen idx "take k us" "drop k us"]
  by (simp split: option.splits)

lemma heap_fold_update_job:
  "heap (fold (update_job r) fs P) r = run fs (heap P r)"
  by (induction fs arbitrary: P) (simp_all add: update_job_def)

lemma heap_fold_update_job_other:
  "r' \<noteq> r \<Longrightarrow> heap (fold (update_job r) fs P) r' = heap P r'"
  by (induction fs arbitrary: P) (simp_all add: update_job_def)

lemma jobs_fold_update_job:
  "jobs (fold (update_job r) fs P) = jobs P"
  "next_ref (fold (update_job r) fs P) = next_ref P"
  by (induction fs arbitrary: P) (simp_all add: update_job_def)

lemma create_job_registers:
  assumes "create_job us gen clock_ms t P = (jid, P1)"
  shows "jid = ''job_'' @ str_int clock_ms"
    and "get_job_status P1 jid = Some (next_ref P)"
    and "heap P1 (next_ref P) = new_job jid us gen t"
  using assms by (auto simp: create_job_def Let_def get_job_status_def)

lemma process_job_heap:
  assumes "get_job_status P jid = Some r"
  shows "heap (process_job w now jid P) r = run (worker_steps w now (heap P r)) (heap P r)"
  using assms by (simp add: process_job_def get_job_status_def heap_fold_update_job)

lemma process_job_frame:
  assumes "get_job_status P jid = Some r"
  shows "jobs (process_job w now jid P) = jobs P"
    and "next_ref (process_job w now jid P) = next_ref P"
    and "r' \<noteq> r \<Longrightarrow> heap (process_job w now jid P) r' = heap P r'"
  using assms
  by (simp_all add: process_job_def get_job_status_def jobs_fold_update_job
      heap_fold_update_job_other)

text \<open>The record a worker leaves: completed, or as the loop left it.\<close>

lemma run_worker_steps:
  "run (worker_steps w now j) j =
     (case escapes w (generate_observations j) 1 (urls j) of
        None \<Rightarrow> mark_completed now (job_after w j (length (urls j)))
      | Some e \<Rightarrow> job_after w j (length (urls j)))"
  by (simp add: worker_steps_def job_after_def split: option.split)

lemma job_after_Suc:
  assumes "k < length (urls j)"
    and "escapes w (generate_observations j) 1 (take k (urls j)) = None"
  shows "url_steps w (generate_observations j) 1 (take (Suc k) (urls j)) =
         url_steps w (generate_observations j) 1 (take k (urls j)) @
         url_steps w (generate_observations j) (int k + 1) [urls j ! k]"
proof -
  have "take (Suc k) (urls j) = take k (urls j) @ [urls j ! k]"
    using assms(1) by (simp add: take_Suc_conv_app_nth)
  then show ?thesis
    using assms by (simp add: url_steps_append add.commute del: url_steps.simps)
qed

lemma job_after_fields:
  "results (job_after w j k) = results j @ outcomes w (generate_observations j) 1 (take k (urls j))"
  "errors (job_after w j k) =
     errors j @ failure_entries (outcomes w (generate_observations j) 1 (take k (urls j)))"
  "successful (job_after w j k) =
     successful j + int (length (filter is_success (outcomes w (generate_observations j) 1 (take k (urls j)))))"
  "failed (job_after w j k) =
     failed j + int (length (filter (\<lambda>x. \<not> is_success x) (outcomes w (generate_observations j) 1 (take k (urls j)))))"
  "completed (job_after w j k) =
     (if take k (urls j) = [] then completed j
      else int (length (outcomes w (generate_observations j) 1 (take k (urls j)))))"
  "status (job_after w j k) = Processing"
  "job_total (job_after w j k) = job_total j"
  "completed_at (job_after w j k) = completed_at j"
  by (simp_all add: job_after_def run_url_steps_results run_url_steps_errors
      run_url_steps_successful run_url_steps_failed run_url_steps_completed
      run_url_steps_frame mark_processing_eq)

subsection \<open>When the worker reaches its last block\<close>

lemma attempt_caught:
  assumes "quiet_stdout w" and "raises_Exception_only w" and "attempt w gen idx url = Inl e"
  shows "caught e"
proof -
  from assms(1) have q: "print_processing w idx url = None"
    "print_observation_failed w idx url = None" "print_save_failed w idx url = None"
    by (simp_all add: quiet_stdout_def)
  from assms(2) have r:
    "\<And>e. diagnose_site w idx url = Inl e \<Longrightarrow> caught e"
    "\<And>res e. generate_technical_observation w idx res = Inl e \<Longrightarrow> caught e"
    "\<And>e. prepare_output w idx url = Inl e \<Longrightarrow> caught e"
    "\<And>filename res e. write_json w idx filename res = Some e \<Longrightarrow> caught e"
    unfolding raises_Exception_only_def by blast+
  from assms(3) show ?thesis
    unfolding attempt_def add_observation_def save_result_def
    by (auto simp: q dest: r split: sum.splits option.splits if_splits)
qed

lemma try_url_calm:
  assumes "quiet_stdout w" and "raises_Exception_only w"
  shows "try_url w gen idx url =
         (case attempt w gen idx url of Inr res \<Rightarrow> Succeeded res | Inl e \<Rightarrow> Failed e)"
proof (cases "attempt w gen idx url")
  case (Inl e)
  from attempt_caught [OF assms Inl] have "caught e" .
  moreover from assms(1) have "print_error w idx url = None" by (simp add: quiet_stdout_def)
  ultimately show ?thesis by (simp add: try_url_def Inl)
next
  case (Inr res)
  then show ?thesis by (simp add: try_url_def)
qed

lemma escapes_calm:
  assumes "quiet_stdout w" and "raises_Exception_only w"
  shows "escapes w gen idx us = None"
  by (induction us arbitrary: idx) (simp_all add: try_url_calm [OF assms] split: sum.split)

lemma recorded_diagnose_fails:
  assumes "quiet_stdout w" and "raises_Exception_only w" and "diagnose_site w idx url = Inl e"
  shows "recorded w gen idx url = Some (Error url (message e))"
proof -
  from assms(1) have "print_processing w idx url = None" by (simp add: quiet_stdout_def)
  with assms(3) have "attempt w gen idx url = Inl e" by (simp add: attempt_def)
  then show ?thesis by (simp add: recorded_def try_url_calm [OF assms(1,2)])
qed

lemma final_job_fields:
  assumes "get_job_status P1 jid = Some r" and "heap P1 r = new_job jid' us gen t"
    and "escapes w gen 1 us = None"
  shows "results (heap (process_job w now jid P1) r) = outcomes w gen 1 us"
    and "errors (heap (process_job w now jid P1) r) = failure_entries (outcomes w gen 1 us)"
    and "successful (heap (process_job w now jid P1) r) =
           int (length (filter is_success (outcomes w gen 1 us)))"
    and "failed (heap (process_job w now jid P1) r) =
           int (length (filter (\<lambda>x. \<not> is_success x) (outcomes w gen 1 us)))"
    and "completed (heap (process_job w now jid P1) r) = int (length us)"
    and "status (heap (process_job w now jid P1) r) = Completed"
    and "completed_at (heap (process_job w now jid P1) r) = Some now"
    and "current_url (heap (process_job w now jid P1) r) = None"
    and "job_total (heap (process_job w now jid P1) r) = int (length us)"
  using assms(2,3) length_outcomes [OF assms(3)]
  by (simp_all add: process_job_heap [OF assms(1)] run_worker_steps mark_completed_eq
      job_after_fields new_job_def)

lemma aborted_job_fields:
  assumes "get_job_status P1 jid = Some r" and "heap P1 r = new_job jid' us gen t"
    and "escapes w gen 1 us = Some e"
  shows "results (heap (process_job w now jid P1) r) = outcomes w gen 1 us"
    and "errors (heap (process_job w now jid P1) r) = failure_entries (outcomes w gen 1 us)"
    and "successful (heap (process_job w now jid P1) r) =
           int (length (filter is_success (outcomes w gen 1 us)))"
    and "failed (heap (process_job w now jid P1) r) =
           int (length (filter (\<lambda>x. \<not> is_success x) (outcomes w gen 1 us)))"
    and "completed (heap (process_job w now jid P1) r) = int (length (outcomes w gen 1 us))"
    and "status (heap (process_job w now jid P1) r) = Processing"
    and "completed_at (heap (process_job w now jid P1) r) = None"
    and "current_url (heap (process_job w now jid P1) r) = Some (us ! length (outcomes w gen 1 us))"
    and "job_total (heap (process_job w now jid P1) r) = int (length us)"
proof -
  have ne: "us \<noteq> []" using assms(3) by auto
  show "current_url (heap (process_job w now jid P1) r) = Some (us ! length (outcomes w gen 1 us))"
    using assms(2,3) run_url_steps_current_url [OF assms(3)]
    by (simp add: process_job_heap [OF assms(1)] run_worker_steps job_after_def new_job_def)
  show "results (heap (process_job w now jid P1) r) = outcomes w gen 1 us"
    "errors (heap (process_job w now jid P1) r) = failure_entries (outcomes w gen 1 us)"
    "successful (heap (process_job w now jid P1) r) =
           int (length (filter is_success (outcomes w gen 1 us)))"
    "failed (heap (process_job w now jid P1) r) =
           int (length (filter (\<lambda>x. \<not> is_success x) (outcomes w gen 1 us)))"
    "completed (heap (process_job w now jid P1) r) = int (length (outcomes w gen 1 us))"
    "status (heap (process_job w now jid P1) r) = Processing"
    "completed_at (heap (process_job w now jid P1) r) = None"
    "job_total (heap (process_job w now jid P1) r) = int (length us)"
    using assms(2,3) ne
    by (simp_all add: process_job_heap [OF assms(1)] run_worker_steps
        job_after_fields new_job_def)
qed

text \<open>
  What the worker does when standard output works and the collaborators raise instances
  of \<^verbatim>\<open>Exception\<close> only: it reaches its last block, with one outcome per URL in the
  order of the list; a failure of \<^verbatim>\<open>diagnose_site\<close> is recorded as an error with its
  message; if every diagnosis fails, \<open>failed\<close> is the total and \<open>successful\<close> is zero.
\<close>

lemma worker_completes_when_stdout_works:
  assumes "get_job_status P jid = Some r" and "heap P r = new_job jid' us gen t"
    and "quiet_stdout w" and "raises_Exception_only w"
    and "final = heap (process_job w now jid P) r"
  shows "status final = Completed \<and> completed_at final = Some now \<and> current_url final = None \<and>
         results final = outcomes w gen 1 us \<and> length (results final) = length us \<and>
         completed final = int (length us) \<and>
         (\<forall>k<length us. \<forall>e. diagnose_site w (int k + 1) (us ! k) = Inl e \<longrightarrow>
            results final ! k = Error (us ! k) (message e)) \<and>
         ((\<forall>k<length us. \<exists>e. diagnose_site w (int k + 1) (us ! k) = Inl e) \<longrightarrow>
            failed final = job_total final \<and> job_total final = int (length us) \<and>
            successful final = 0)"
proof -
  note esc = escapes_calm [OF assms(3,4), of gen 1 us]
  note F = final_job_fields [OF assms(1,2) esc, of now, folded assms(5)]
  note len = length_outcomes [OF esc]
  have nth: "results final ! k = Error (us ! k) (message e)"
    if "k < length us" "diagnose_site w (int k + 1) (us ! k) = Inl e" for k e
  proof -
    from that(1) len have "k < length (outcomes w gen 1 us)" by simp
    from outcomes_nth [OF this]
    have "recorded w gen (1 + int k) (us ! k) = Some (outcomes w gen 1 us ! k)" .
    moreover from that(2) have "recorded w gen (1 + int k) (us ! k) = Some (Error (us ! k) (message e))"
      by (simp add: recorded_diagnose_fails [OF assms(3,4)] add.commute)
    ultimately show ?thesis by (simp add: F(1))
  qed
  have allfail: "failed final = job_total final \<and> job_total final = int (length us) \<and>
            successful final = 0"
    if h: "\<forall>k<length us. \<exists>e. diagnose_site w (int k + 1) (us ! k) = Inl e"
  proof -
    have "\<not> is_success x" if "x \<in> set (outcomes w gen 1 us)" for x
    proof -
      from that obtain k where k: "k < length us" "x = outcomes w gen 1 us ! k"
        by (auto simp: in_set_conv_nth len)
      with h obtain e where "diagnose_site w (int k + 1) (us ! k) = Inl e" by blast
      with nth [OF k(1)] k(2) show ?thesis by (simp add: F(1) [symmetric])
    qed
    then have none: "filter is_success (outcomes w gen 1 us) = []"
      by (simp add: filter_empty_conv)
    have "length (filter (\<lambda>x. \<not> is_success x) (outcomes w gen 1 us)) = length us"
      using sum_length_filter_compl [of is_success "outcomes w gen 1 us"] none
      by (simp add: len)
    then show ?thesis by (simp add: F none)
  qed
  from F len nth allfail show ?thesis by simp
qed

lemma quiet_world_calm: "quiet_stdout quiet_world" "raises_Exception_only quiet_world"
  by (simp_all add: quiet_stdout_def raises_Exception_only_def quiet_world_def)

subsection \<open>A job created on a new table at clock reading 5\<close>

lemma create_job_digit:
  "create_job us gen 5 t new_processor = (''job_5'', snd (create_job us gen 5 t new_processor))"
  "get_job_status (snd (create_job us gen 5 t new_processor)) ''job_5'' = Some 0"
  "heap (snd (create_job us gen 5 t new_processor)) 0 = new_job ''job_5'' us gen t"
  by (simp_all add: create_job_def Let_def get_job_status_def new_processor_def str_int_def
      str_nat_digit digit_char_def)

subsection \<open>An exception that leaves the worker\<close>

lemma cancelled_world_ends_worker:
  "escapes cancelled_world False 1 [''https://a.example''] = Some (BaseException ''CancelledError'') \<and>
   status (heap (process_job cancelled_world 9 ''job_5''
      (snd (create_job [''https://a.example''] False 5 0 new_processor))) 0) = Processing \<and>
   results (heap (process_job cancelled_world 9 ''job_5''
      (snd (create_job [''https://a.example''] False 5 0 new_processor))) 0) = []"
proof -
  have e: "escapes cancelled_world False 1 [''https://a.example''] =
      Some (BaseException ''CancelledError'')"
    by (simp add: try_url_def attempt_def cancelled_world_def quiet_world_def)
  have o: "outcomes cancelled_world False 1 [''https://a.example''] = []"
    by (simp add: recorded_def try_url_def attempt_def cancelled_world_def quiet_world_def)
  note A = aborted_job_fields [OF create_job_digit(2) create_job_digit(3) e]
  show ?thesis unfolding A e o by simp
qed

text \<open>
  C1 says that the worker never aborts and always ends with status \<open>Completed\<close>. Here
  standard output cannot encode the URLs. For the first URL the \<^verbatim>\<open>print\<close> on line 76
  raises; the handler on line 120 catches the exception, and its own \<^verbatim>\<open>print\<close> on
  line 123, which formats the same URL and is inside no \<^verbatim>\<open>try\<close>, raises again. The
  exception leaves \<^verbatim>\<open>_process_job\<close>: no outcome is appended, the second URL is never
  begun, and the record stays in status \<open>Processing\<close> with \<open>completed_at\<close> unset and
  \<open>current_url\<close> still set.
\<close>

theorem handler_print_ends_worker:
  "escapes ascii_stdout_world False 1 [''https://a.example'', ''https://b.example''] =
     Some (Exception ''UnicodeEncodeError'') \<and>
   status (heap (process_job ascii_stdout_world 9 ''job_5''
      (snd (create_job [''https://a.example'', ''https://b.example''] False 5 0 new_processor))) 0) =
     Processing \<and>
   completed_at (heap (process_job ascii_stdout_world 9 ''job_5''
      (snd (create_job [''https://a.example'', ''https://b.example''] False 5 0 new_processor))) 0) =
     None \<and>
   current_url (heap (process_job ascii_stdout_world 9 ''job_5''
      (snd (create_job [''https://a.example'', ''https://b.example''] False 5 0 new_processor))) 0) =
     Some ''https://a.example'' \<and>
   results (heap (process_job ascii_stdout_world 9 ''job_5''
      (snd (create_job [''https://a.example'', ''https://b.example''] False 5 0 new_processor))) 0) =
     [] \<and>
   errors (heap (process_job ascii_stdout_world 9 ''job_5''
      (snd (create_job [''https://a.example'', ''https://b.example''] False 5 0 new_processor))) 0) =
     [] \<and>
   completed (heap (process_job ascii_stdout_world 9 ''job_5''
      (snd (create_job [''https://a.example'', ''https://b.example''] False 5 0 new_processor))) 0) =
     0 \<and>
   failed (heap (process_job ascii_stdout_world 9 ''job_5''
      (snd (create_job [''https://a.example'', ''https://b.example''] False 5 0 new_processor))) 0) =
     0 \<and>
   job_total (heap (process_job ascii_stdout_world 9 ''job_5''
      (snd (create_job [''https://a.example'', ''https://b.example''] False 5 0 new_processor))) 0) =
     2"
proof -
  have t: "try_url ascii_stdout_world False 1 ''https://a.example'' =
      Escaped (Exception ''UnicodeEncodeError'')"
    by (simp add: try_url_def attempt_def ascii_stdout_world_def quiet_world_def)
  have e: "escapes ascii_stdout_world False 1 [''https://a.example'', ''https://b.example''] =
      Some (Exception ''UnicodeEncodeError'')"
    by (simp add: t)
  have o: "outcomes ascii_stdout_world False 1 [''https://a.example'', ''https://b.example''] = []"
    by (simp add: recorded_def t)
  note A = aborted_job_fields [OF create_job_digit(2) create_job_digit(3) e]
  show ?thesis unfolding A e o by simp
qed

subsection \<open>Counters\<close>



lemma last_job_states: "last (job_states fs j) = run fs j"
  by (induction fs arbitrary: j) (auto simp: neq_Nil_conv elim: job_states.elims)

lemma run_in_job_states: "run fs j \<in> set (job_states fs j)"
proof -
  have "job_states fs j \<noteq> []" by (cases fs) simp_all
  then have "last (job_states fs j) \<in> set (job_states fs j)" by (rule last_in_set)
  then show ?thesis by (simp add: last_job_states)
qed







text \<open>
  A call of \<^verbatim>\<open>create_job\<close> that returns another id leaves the entry and the record of
  a job as they are.
\<close>

lemma create_job_keeps_other_jobs:
  assumes "create_job us' gen' clock_ms' t' P = (jid', P')"
    and "get_job_status P jid = Some r" and "r < next_ref P" and "jid \<noteq> jid'"
  shows "get_job_status P' jid = Some r" and "heap P' r = heap P r" and "r < next_ref P'"
  using assms by (auto simp: create_job_def Let_def get_job_status_def)





subsection \<open>Order of the results\<close>

lemma map_outcome_url_outcomes:
  "map outcome_url (outcomes w gen idx us) = take (length (outcomes w gen idx us)) us"
  by (induction us arbitrary: idx) (simp_all add: recorded_def split: verdict.split)

lemma add_observation_calm:
  assumes "quiet_stdout w" and "raises_Exception_only w"
  shows "\<exists>res'. add_observation w gen idx url res = Inr res'"
proof -
  from assms(1) have q: "print_observation_failed w idx url = None"
    by (simp add: quiet_stdout_def)
  from assms(2) have r: "\<And>e. generate_technical_observation w idx res = Inl e \<Longrightarrow> caught e"
    unfolding raises_Exception_only_def by blast
  show ?thesis
    unfolding add_observation_def
    by (auto simp: q dest: r split: sum.splits option.splits)
qed

lemma save_result_prepared:
  assumes "quiet_stdout w" and "raises_Exception_only w"
    and "prepare_output w idx url = Inr filename"
  shows "\<exists>p. save_result w idx url res = Inr p"
proof -
  from assms(1) have q: "print_save_failed w idx url = None" by (simp add: quiet_stdout_def)
  from assms(2) have r: "\<And>e. write_json w idx filename res = Some e \<Longrightarrow> caught e"
    unfolding raises_Exception_only_def by blast
  show ?thesis
    unfolding save_result_def
    by (auto simp: q assms(3) dest: r split: option.splits)
qed

lemma attempt_prepared:
  assumes "quiet_stdout w" and "raises_Exception_only w"
    and "diagnose_site w idx url = Inr d" and "prepare_output w idx url = Inr filename"
  shows "\<exists>p. attempt w gen idx url = Inr p"
proof -
  from assms(1) have q: "print_processing w idx url = None" by (simp add: quiet_stdout_def)
  from add_observation_calm [OF assms(1,2)] obtain res'
    where a: "add_observation w gen idx url d = Inr res'" by blast
  from save_result_prepared [OF assms(1,2,4)] obtain p
    where "save_result w idx url res' = Inr p" by blast
  with a q assms(3) show ?thesis by (simp add: attempt_def)
qed

text \<open>
  The order of the results, when standard output works and the collaborators raise
  instances of \<^verbatim>\<open>Exception\<close> only. A worker finds the record of a job as
  \<^verbatim>\<open>create_job\<close> stored it and runs. The list \<open>results\<close> of the final record holds one
  outcome per URL, in the order of submission. For the batch \<open>[A, B, C]\<close> where
  \<^verbatim>\<open>diagnose_site\<close> returns on \<open>A\<close> and \<open>C\<close> and raises on \<open>B\<close>, and where the statements
  between the diagnosis and the guarded write (\<^verbatim>\<open>urlparse\<close>, \<^verbatim>\<open>os.makedirs\<close>) do not
  raise on \<open>A\<close> and \<open>C\<close>, the final record has \<open>results = [success A, error B, success C]\<close>,
  \<open>successful = 2\<close>, \<open>failed = 1\<close>, \<open>completed = 3\<close>, status \<open>Completed\<close> and the one entry
  for \<open>B\<close> in \<open>errors\<close>.
\<close>

lemma results_in_submission_order:
  assumes "get_job_status P jid = Some r" and "heap P r = new_job jid' us gen t"
    and "quiet_stdout w" and "raises_Exception_only w"
    and "final = heap (process_job w now jid P) r"
  shows "results final = outcomes w gen 1 us \<and>
         map outcome_url (results final) = us \<and>
         (\<forall>k<length us. recorded w gen (int k + 1) (us ! k) = Some (results final ! k)) \<and>
         (us = [A, B, C] \<and>
          diagnose_site w 1 A = Inr da \<and> diagnose_site w 2 B = Inl e \<and>
          diagnose_site w 3 C = Inr dc \<and>
          prepare_output w 1 A = Inr fa \<and> prepare_output w 3 C = Inr fc \<longrightarrow>
            (\<exists>pa pc. attempt w gen 1 A = Inr pa \<and> attempt w gen 3 C = Inr pc \<and>
               results final = [Success A pa, Error B (message e), Success C pc]) \<and>
            successful final = 2 \<and> failed final = 1 \<and> completed final = 3 \<and>
            status final = Completed \<and> errors final = [(B, message e)])"
proof -
  note esc = escapes_calm [OF assms(3,4), of gen 1 us]
  note len = length_outcomes [OF esc]
  note F = final_job_fields [OF assms(1,2) esc, of now, folded assms(5)]
  have 1: "results final = outcomes w gen 1 us" by (rule F(1))
  have 2: "map outcome_url (results final) = us"
    by (simp add: 1 map_outcome_url_outcomes len)
  have 3: "\<forall>k<length us. recorded w gen (int k + 1) (us ! k) = Some (results final ! k)"
    using outcomes_nth [of _ w gen 1 us] by (simp add: 1 len add.commute)
  have 4: "(\<exists>pa pc. attempt w gen 1 A = Inr pa \<and> attempt w gen 3 C = Inr pc \<and>
               results final = [Success A pa, Error B (message e), Success C pc]) \<and>
            successful final = 2 \<and> failed final = 1 \<and> completed final = 3 \<and>
            status final = Completed \<and> errors final = [(B, message e)]"
    if h: "us = [A, B, C]" "diagnose_site w 1 A = Inr da" "diagnose_site w 2 B = Inl e"
      "diagnose_site w 3 C = Inr dc" "prepare_output w 1 A = Inr fa" "prepare_output w 3 C = Inr fc"
  proof -
    from attempt_prepared [OF assms(3,4) h(2) h(5)] obtain pa
      where pa: "attempt w gen 1 A = Inr pa" by blast
    from attempt_prepared [OF assms(3,4) h(4) h(6)] obtain pc
      where pc: "attempt w gen 3 C = Inr pc" by blast
    have "recorded w gen 1 A = Some (Success A pa)" "recorded w gen 3 C = Some (Success C pc)"
      using pa pc by (simp_all add: recorded_def try_url_def)
    moreover have "recorded w gen 2 B = Some (Error B (message e))"
      by (rule recorded_diagnose_fails [OF assms(3,4) h(3)])
    ultimately have o: "outcomes w gen 1 us = [Success A pa, Error B (message e), Success C pc]"
      by (simp add: h(1))
    show ?thesis
      using pa pc by (simp add: F o) (simp add: h(1))
  qed
  from 1 2 3 4 show ?thesis by blast
qed

lemma example_worlds_calm:
  "quiet_stdout abc_world" "raises_Exception_only abc_world"
  "quiet_stdout readonly_abc_world" "raises_Exception_only readonly_abc_world"
  "quiet_stdout readonly_world" "raises_Exception_only readonly_world"
  "quiet_stdout degraded_world" "raises_Exception_only degraded_world"
  "quiet_stdout failing_world" "raises_Exception_only failing_world"
  by (auto simp: quiet_stdout_def raises_Exception_only_def abc_world_def readonly_abc_world_def
      readonly_world_def degraded_world_def failing_world_def quiet_world_def split: if_splits)

lemma results_in_submission_order_example:
  "results (heap (process_job abc_world 9 ''job_5''
      (snd (create_job [''A'', ''B'', ''C''] False 5 0 new_processor))) 0) =
     [Success ''A'' (sample_result\<lparr>output_file := Some ''diagnosis_site.json'', saved := Some True\<rparr>),
      Error ''B'' ''timeout'',
      Success ''C'' (sample_result\<lparr>output_file := Some ''diagnosis_site.json'', saved := Some True\<rparr>)] \<and>
   successful (heap (process_job abc_world 9 ''job_5''
      (snd (create_job [''A'', ''B'', ''C''] False 5 0 new_processor))) 0) = 2 \<and>
   failed (heap (process_job abc_world 9 ''job_5''
      (snd (create_job [''A'', ''B'', ''C''] False 5 0 new_processor))) 0) = 1 \<and>
   completed (heap (process_job abc_world 9 ''job_5''
      (snd (create_job [''A'', ''B'', ''C''] False 5 0 new_processor))) 0) = 3 \<and>
   errors (heap (process_job abc_world 9 ''job_5''
      (snd (create_job [''A'', ''B'', ''C''] False 5 0 new_processor))) 0) = [(''B'', ''timeout'')]"
proof -
  note esc = escapes_calm [OF example_worlds_calm(1,2), of False 1 "[''A'', ''B'', ''C'']"]
  have o: "outcomes abc_world False 1 [''A'', ''B'', ''C''] =
     [Success ''A'' (sample_result\<lparr>output_file := Some ''diagnosis_site.json'', saved := Some True\<rparr>),
      Error ''B'' ''timeout'',
      Success ''C'' (sample_result\<lparr>output_file := Some ''diagnosis_site.json'', saved := Some True\<rparr>)]"
    by (simp add: recorded_def try_url_def attempt_def save_result_def add_observation_def
        abc_world_def quiet_world_def)
  note F = final_job_fields [OF create_job_digit(2) create_job_digit(3) esc]
  show ?thesis unfolding F o by simp
qed

text \<open>
  C7 gives the final record of the batch \<open>[A, B, C]\<close> from the behaviour of
  \<^verbatim>\<open>diagnose_site\<close> alone. Here \<^verbatim>\<open>diagnose_site\<close> returns on \<open>A\<close> and \<open>C\<close> and
  raises on \<open>B\<close>, as in the claim, and \<^verbatim>\<open>os.makedirs\<close> raises: all three URLs are
  recorded as errors, \<open>successful\<close> is 0 and \<open>failed\<close> is 3.
\<close>

theorem abc_batch_in_readonly_directory:
  "diagnose_site readonly_abc_world 1 ''A'' = Inr sample_result \<and>
   diagnose_site readonly_abc_world 2 ''B'' = Inl (Exception ''timeout'') \<and>
   diagnose_site readonly_abc_world 3 ''C'' = Inr sample_result \<and>
   results (heap (process_job readonly_abc_world 9 ''job_5''
      (snd (create_job [''A'', ''B'', ''C''] False 5 0 new_processor))) 0) =
     [Error ''A'' ''Permission denied: results'',
      Error ''B'' ''timeout'',
      Error ''C'' ''Permission denied: results''] \<and>
   successful (heap (process_job readonly_abc_world 9 ''job_5''
      (snd (create_job [''A'', ''B'', ''C''] False 5 0 new_processor))) 0) = 0 \<and>
   failed (heap (process_job readonly_abc_world 9 ''job_5''
      (snd (create_job [''A'', ''B'', ''C''] False 5 0 new_processor))) 0) = 3"
proof -
  note esc = escapes_calm [OF example_worlds_calm(3,4), of False 1 "[''A'', ''B'', ''C'']"]
  have o: "outcomes readonly_abc_world False 1 [''A'', ''B'', ''C''] =
     [Error ''A'' ''Permission denied: results'',
      Error ''B'' ''timeout'',
      Error ''C'' ''Permission denied: results'']"
    by (simp add: recorded_def try_url_def attempt_def save_result_def add_observation_def
        readonly_abc_world_def abc_world_def quiet_world_def)
  note F = final_job_fields [OF create_job_digit(2) create_job_digit(3) esc]
  show ?thesis unfolding F o
    by (simp add: readonly_abc_world_def abc_world_def quiet_world_def)
qed

subsection \<open>Failures after a successful diagnosis\<close>

lemma observation_failure_swallowed:
  assumes "generate_technical_observation w idx res = Inl e" and "caught e"
    and "print_observation_failed w idx url = None"
  shows "add_observation w gen idx url res = Inr res"
  using assms by (simp add: add_observation_def)

lemma observation_keeps_diagnosis:
  assumes "add_observation w gen idx url res = Inr res'"
  shows "report res' = report res" and "vulnerability_detected res' = vulnerability_detected res"
  using assms by (auto simp: add_observation_def split: sum.splits option.splits if_splits)

lemma write_failure_still_success:
  assumes "print_processing w idx url = None"
    and "diagnose_site w idx url = Inr res"
    and "add_observation w gen idx url res = Inr res'"
    and "prepare_output w idx url = Inr filename"
    and "write_json w idx filename res' = Some e" and "caught e"
    and "print_save_failed w idx url = None"
  shows "recorded w gen idx url =
         Some (Success url (res'\<lparr>saved := Some False, save_error := Some (message e)\<rparr>))"
  using assms by (simp add: recorded_def try_url_def attempt_def save_result_def)

lemma prepare_failure_is_error:
  assumes "print_processing w idx url = None"
    and "diagnose_site w idx url = Inr res"
    and "add_observation w gen idx url res = Inr res'"
    and "prepare_output w idx url = Inl e" and "caught e"
    and "print_error w idx url = None"
  shows "recorded w gen idx url = Some (Error url (message e))"
  using assms by (simp add: recorded_def try_url_def attempt_def save_result_def)

lemma degraded_world_still_success:
  "results (heap (process_job degraded_world 9 ''job_5''
      (snd (create_job [''https://example.com''] True 5 0 new_processor))) 0) =
     [Success ''https://example.com''
        (sample_result\<lparr>saved := Some False, save_error := Some ''disk full''\<rparr>)] \<and>
   successful (heap (process_job degraded_world 9 ''job_5''
      (snd (create_job [''https://example.com''] True 5 0 new_processor))) 0) = 1 \<and>
   failed (heap (process_job degraded_world 9 ''job_5''
      (snd (create_job [''https://example.com''] True 5 0 new_processor))) 0) = 0"
proof -
  note esc = escapes_calm [OF example_worlds_calm(7,8), of True 1 "[''https://example.com'']"]
  have o: "outcomes degraded_world True 1 [''https://example.com''] =
     [Success ''https://example.com''
        (sample_result\<lparr>saved := Some False, save_error := Some ''disk full''\<rparr>)]"
    by (simp add: recorded_def try_url_def attempt_def save_result_def add_observation_def
        degraded_world_def quiet_world_def sample_result_def)
  note F = final_job_fields [OF create_job_digit(2) create_job_digit(3) esc]
  show ?thesis unfolding F o by simp
qed

text \<open>
  C8 says that once \<^verbatim>\<open>diagnose_site\<close> has returned, the outcome is recorded as a
  success whatever happens afterwards, a failure of persistence included. The lemmas
  above show this for the observation step and for the guarded write. The statements
  that prepare the write are outside the inner \<^verbatim>\<open>try\<close>: here \<^verbatim>\<open>diagnose_site\<close>
  returns, \<^verbatim>\<open>os.makedirs\<close> raises, and the URL is recorded as an error and counted
  in \<open>failed\<close>.
\<close>

theorem makedirs_failure_recorded_as_error:
  "diagnose_site readonly_world 1 ''https://example.com'' = Inr sample_result \<and>
   results (heap (process_job readonly_world 9 ''job_5''
      (snd (create_job [''https://example.com''] False 5 0 new_processor))) 0) =
     [Error ''https://example.com'' ''Permission denied: results''] \<and>
   errors (heap (process_job readonly_world 9 ''job_5''
      (snd (create_job [''https://example.com''] False 5 0 new_processor))) 0) =
     [(''https://example.com'', ''Permission denied: results'')] \<and>
   successful (heap (process_job readonly_world 9 ''job_5''
      (snd (create_job [''https://example.com''] False 5 0 new_processor))) 0) = 0 \<and>
   failed (heap (process_job readonly_world 9 ''job_5''
      (snd (create_job [''https://example.com''] False 5 0 new_processor))) 0) = 1 \<and>
   status (heap (process_job readonly_world 9 ''job_5''
      (snd (create_job [''https://example.com''] False 5 0 new_processor))) 0) = Completed"
proof -
  note esc = escapes_calm [OF example_worlds_calm(5,6), of False 1 "[''https://example.com'']"]
  have o: "outcomes readonly_world False 1 [''https://example.com''] =
     [Error ''https://example.com'' ''Permission denied: results'']"
    by (simp add: recorded_def try_url_def attempt_def save_result_def add_observation_def
        readonly_world_def quiet_world_def)
  note F = final_job_fields [OF create_job_digit(2) create_job_digit(3) esc]
  show ?thesis unfolding F o
    by (simp add: readonly_world_def quiet_world_def)
qed

subsection \<open>The empty batch\<close>

text \<open>
  C10. \<^verbatim>\<open>create_job\<close> with an empty URL list registers a job and returns its id. The
  worker of that job has two locked blocks and none for a URL; it leaves the record with
  status \<open>Completed\<close>, all counters zero, \<open>results\<close> and \<open>errors\<close> empty, \<open>current_url\<close>
  cleared and \<open>completed_at\<close> set.
\<close>

theorem empty_batch_completes:
  "fst (create_job [] gen clock_ms t P) = ''job_'' @ str_int clock_ms \<and>
   get_job_status (snd (create_job [] gen clock_ms t P)) (fst (create_job [] gen clock_ms t P)) =
     Some (next_ref P) \<and>
   worker_steps w now (heap (snd (create_job [] gen clock_ms t P)) (next_ref P)) =
     [mark_processing, mark_completed now] \<and>
   heap (process_job w now (fst (create_job [] gen clock_ms t P))
          (snd (create_job [] gen clock_ms t P))) (next_ref P) =
     \<lparr> job_id = ''job_'' @ str_int clock_ms, urls = [], job_total = 0, completed = 0,
       successful = 0, failed = 0, current_url = None, status = Completed,
       results = [], errors = [], started_at = t, completed_at = Some now,
       generate_observations = gen \<rparr>"
proof -
  obtain jid P1 where c: "create_job [] gen clock_ms t P = (jid, P1)" by fastforce
  note R = create_job_registers [OF c]
  have w0: "worker_steps w now (new_job jid [] gen t) = [mark_processing, mark_completed now]"
    by (simp add: worker_steps_def new_job_def)
  then have w: "worker_steps w now (heap P1 (next_ref P)) = [mark_processing, mark_completed now]"
    by (simp add: R(3))
  have "heap (process_job w now jid P1) (next_ref P) =
        mark_completed now (mark_processing (new_job jid [] gen t))"
    by (simp add: process_job_heap [OF R(2)] R(3) w0)
  then show ?thesis
    using R(1,2) w by (simp add: c mark_completed_eq mark_processing_eq new_job_def)
qed

text \<open>
  C3, amended. \<^verbatim>\<open>create_job\<close> does not look at the length of the list: called with an
  empty URL list it raises nothing, returns the id \<open>job_<clock>\<close> and registers under it
  a record in status \<open>Queued\<close> with total 0.
\<close>

theorem create_job_accepts_empty_batch:
  "fst (create_job [] gen clock_ms t P) = ''job_'' @ str_int clock_ms \<and>
   get_job_status (snd (create_job [] gen clock_ms t P)) (''job_'' @ str_int clock_ms) =
     Some (next_ref P) \<and>
   heap (snd (create_job [] gen clock_ms t P)) (next_ref P) =
     new_job (''job_'' @ str_int clock_ms) [] gen t \<and>
   status (heap (snd (create_job [] gen clock_ms t P)) (next_ref P)) = Queued \<and>
   job_total (heap (snd (create_job [] gen clock_ms t P)) (next_ref P)) = 0"
  by (simp add: create_job_def Let_def get_job_status_def new_job_def)

theorem create_job_accepts_empty_batch_counterexample:
  "fst (create_job [] False 5 0 new_processor) = ''job_5'' \<and>
   get_job_status (snd (create_job [] False 5 0 new_processor)) ''job_5'' = Some 0 \<and>
   get_job_status new_processor ''job_5'' = None \<and>
   urls (heap (snd (create_job [] False 5 0 new_processor)) 0) = []"
proof -
  have "get_job_status new_processor ''job_5'' = None"
    by (simp add: get_job_status_def new_processor_def)
  moreover have "fst (create_job [] False 5 0 new_processor) = ''job_5''"
    by (simp add: create_job_def Let_def str_int_def str_nat_digit digit_char_def)
  ultimately show ?thesis
    by (simp add: create_job_digit(2,3) new_job_def)
qed

subsection \<open>The sweep\<close>

lemma scan_jobs_stamped:
  assumes "\<forall>(jid, r) \<in> set xs. stamped (h r)"
  shows "scan_jobs h now m xs = Inr (map fst (filter (\<lambda>(jid, r). expired now m (h r)) xs))"
  using assms
proof (induction xs)
  case Nil
  then show ?case by simp
next
  case (Cons x xs)
  obtain jid r where x: "x = (jid, r)" by (cases x)
  from Cons.prems have IH: "scan_jobs h now m xs = Inr (map fst (filter (\<lambda>(jid, r). expired now m (h r)) xs))"
    by (intro Cons.IH) simp
  from Cons.prems x have st: "stamped (h r)" by simp
  show ?case
  proof (cases "status (h r) = Completed")
    case True
    with st obtain c where c: "completed_at (h r) = Some c" by (auto simp: stamped_def)
    with True IH show ?thesis by (simp add: x expired_def)
  next
    case False
    with IH show ?thesis by (simp add: x expired_def)
  qed
qed

lemma scan_jobs_Inr:
  "scan_jobs h now m xs = Inr ids \<Longrightarrow> ids = map fst (filter (\<lambda>(jid, r). expired now m (h r)) xs)"
proof (induction xs arbitrary: ids)
  case Nil
  then show ?case by simp
next
  case (Cons x xs)
  obtain jid r where x: "x = (jid, r)" by (cases x)
  show ?case
  proof (cases "status (h r) = Completed")
    case True
    with Cons.prems x obtain c ids' where c: "completed_at (h r) = Some c"
      and s: "scan_jobs h now m xs = Inr ids'"
      and i: "ids = (if age_hours now c > of_int m then jid # ids' else ids')"
      by (auto split: option.splits sum.splits)
    from Cons.IH [OF s] True c i show ?thesis by (simp add: x expired_def)
  next
    case False
    with Cons.prems x have "scan_jobs h now m xs = Inr ids" by simp
    from Cons.IH [OF this] False show ?thesis by (simp add: x expired_def)
  qed
qed

lemma impl_of_fold_delete:
  "DAList.impl_of (fold DAList.delete ids xs) = filter (\<lambda>(k, v). k \<notin> set ids) (DAList.impl_of xs)"
proof (induction ids arbitrary: xs)
  case Nil
  then show ?case by simp
next
  case (Cons k ids)
  show ?case
    by (simp add: Cons.IH delete.rep_eq AList.delete_eq case_prod_unfold) (metis (lifting))
qed

lemma filter_removed_keys:
  assumes "distinct (map fst xs)"
  shows "filter (\<lambda>(k, v). k \<notin> set (map fst (filter (\<lambda>(k, v). Q v) xs))) xs =
         filter (\<lambda>(k, v). \<not> Q v) xs"
proof (rule filter_cong [OF refl])
  fix x assume x: "x \<in> set xs"
  obtain k v where kv: "x = (k, v)" by (cases x)
  have "k \<in> set (map fst (filter (\<lambda>(k, v). Q v) xs)) \<longleftrightarrow> Q v"
  proof
    assume "k \<in> set (map fst (filter (\<lambda>(k, v). Q v) xs))"
    then obtain v' where v': "(k, v') \<in> set xs" "Q v'" by auto
    from assms x kv v'(1) have "v' = v" by (metis eq_key_imp_eq_value)
    with v'(2) show "Q v" by simp
  next
    assume "Q v"
    with x kv show "k \<in> set (map fst (filter (\<lambda>(k, v). Q v) xs))" by force
  qed
  then show "(case x of (k, v) \<Rightarrow> k \<notin> set (map fst (filter (\<lambda>(k, v). Q v) xs))) =
             (case x of (k, v) \<Rightarrow> \<not> Q v)"
    by (simp add: kv)
qed

lemma cleanup_old_jobs_Inr:
  assumes "cleanup_old_jobs now m P = Inr out"
  shows "DAList.impl_of (jobs (table out)) =
           filter (\<lambda>(jid, r). \<not> expired now m (heap P r)) (DAList.impl_of (jobs P))"
    and "heap (table out) = heap P"
    and "returned out = PyNone"
    and "printed out =
           (let n = length (filter (\<lambda>(jid, r). expired now m (heap P r)) (DAList.impl_of (jobs P)))
            in if n = 0 then [] else [''Cleaned up '' @ str_nat n @ '' old jobs''])"
proof -
  from assms obtain ids where s: "scan_jobs (heap P) now m (DAList.impl_of (jobs P)) = Inr ids"
    and out: "out = \<lparr> returned = PyNone,
                printed = (if ids \<noteq> []
                           then [''Cleaned up '' @ str_nat (length ids) @ '' old jobs'']
                           else []),
                table = P\<lparr>jobs := fold DAList.delete ids (jobs P)\<rparr> \<rparr>"
    by (auto simp: cleanup_old_jobs_def split: sum.splits)
  note ids = scan_jobs_Inr [OF s]
  show "DAList.impl_of (jobs (table out)) =
           filter (\<lambda>(jid, r). \<not> expired now m (heap P r)) (DAList.impl_of (jobs P))"
    using filter_removed_keys [of "DAList.impl_of (jobs P)" "\<lambda>r. expired now m (heap P r)"]
    by (simp add: out impl_of_fold_delete ids)
  show "heap (table out) = heap P" by (simp add: out)
  show "returned out = PyNone" by (simp add: out)
  show "printed out =
           (let n = length (filter (\<lambda>(jid, r). expired now m (heap P r)) (DAList.impl_of (jobs P)))
            in if n = 0 then [] else [''Cleaned up '' @ str_nat n @ '' old jobs''])"
    by (simp add: out ids Let_def)
qed

lemma cleanup_old_jobs_total:
  assumes "\<forall>(jid, r) \<in> set (DAList.impl_of (jobs P)). stamped (heap P r)"
  shows "\<exists>out. cleanup_old_jobs now m P = Inr out"
  using scan_jobs_stamped [OF assms, of now m] by (simp add: cleanup_old_jobs_def)

lemma age_hours_gt: "age_hours now c > of_int m \<longleftrightarrow> now - c > m * 3600000000"
proof -
  have "age_hours now c > of_int m \<longleftrightarrow> (of_int (now - c) :: rat) > of_int m * 3600000000"
    by (simp add: age_hours_def field_simps)
  also have "\<dots> \<longleftrightarrow> (of_int (now - c) :: rat) > of_int (m * 3600000000)" by simp
  also have "\<dots> \<longleftrightarrow> now - c > m * 3600000000" by (simp only: of_int_less_iff)
  finally show ?thesis .
qed

lemma lookup_filter_alist:
  assumes "distinct (map fst xs)" and "map_of xs k = Some v"
  shows "map_of (filter (\<lambda>(k, v). Q v) xs) k = (if Q v then Some v else None)"
proof (cases "Q v")
  case True
  with assms(2) show ?thesis
    using map_of_filter_in [of xs k v "\<lambda>k v. Q v"] by simp
next
  case False
  have "k \<notin> fst ` set (filter (\<lambda>(k, v). Q v) xs)"
  proof
    assume "k \<in> fst ` set (filter (\<lambda>(k, v). Q v) xs)"
    then obtain v' where v': "(k, v') \<in> set xs" "Q v'" by auto
    from assms(2) have "(k, v) \<in> set xs" by (rule map_of_SomeD)
    with assms(1) v'(1) have "v' = v" by (metis eq_key_imp_eq_value)
    with v'(2) False show False by simp
  qed
  then have "map_of (filter (\<lambda>(k, v). Q v) xs) k = None"
    by (simp add: map_of_eq_None_iff)
  with False show ?thesis by simp
qed

lemma lookup_filter_alist_None:
  "map_of xs k = None \<Longrightarrow> map_of (filter Q xs) k = None"
  by (auto simp: map_of_eq_None_iff)

lemma expired_explicit:
  "expired now m j \<longleftrightarrow>
     status j = Completed \<and> (\<exists>c. completed_at j = Some c \<and> now - c > m * 3600000000)"
  by (auto simp: expired_def age_hours_gt split: option.splits)

text \<open>
  C4. On a table in which every completed record carries its completion time (the
  worker keeps it so), \<^verbatim>\<open>cleanup_old_jobs\<close> raises nothing, changes no record, and
  keeps exactly the entries whose job is not both completed and older than the
  threshold, in their order. A hour being 3600000000 microseconds: an id whose record is
  \<open>Completed\<close> with \<open>current_time - completed_at > max_age_hours\<close> is removed, every
  other id stays; so an id in status \<open>Queued\<close> or \<open>Processing\<close> stays whatever its age,
  and a completed one whose age equals the threshold stays.
\<close>

theorem cleanup_removes_exactly_expired:
  assumes "all_stamped P"
  shows "\<exists>out. cleanup_old_jobs now m P = Inr out \<and>
           heap (table out) = heap P \<and>
           DAList.impl_of (jobs (table out)) =
             filter (\<lambda>(jid, r). \<not> expired now m (heap P r)) (DAList.impl_of (jobs P)) \<and>
           (\<forall>jid. get_job_status P jid = None \<longrightarrow> get_job_status (table out) jid = None) \<and>
           (\<forall>jid r. get_job_status P jid = Some r \<longrightarrow>
              get_job_status (table out) jid =
                (if status (heap P r) = Completed \<and>
                    (\<exists>c. completed_at (heap P r) = Some c \<and> now - c > m * 3600000000)
                 then None else Some r)) \<and>
           (\<forall>jid r. get_job_status P jid = Some r \<and> status (heap P r) \<noteq> Completed \<longrightarrow>
              get_job_status (table out) jid = Some r) \<and>
           (\<forall>jid r c. get_job_status P jid = Some r \<and> status (heap P r) = Completed \<and>
              completed_at (heap P r) = Some c \<and> now - c = m * 3600000000 \<longrightarrow>
              get_job_status (table out) jid = Some r)"
proof -
  from assms have "\<forall>(jid, r) \<in> set (DAList.impl_of (jobs P)). stamped (heap P r)"
    by (simp add: all_stamped_def)
  from cleanup_old_jobs_total [OF this] obtain out where out: "cleanup_old_jobs now m P = Inr out"
    by blast
  note R = cleanup_old_jobs_Inr [OF out]
  have d: "distinct (map fst (DAList.impl_of (jobs P)))" by simp
  have none: "get_job_status (table out) jid = None" if "get_job_status P jid = None" for jid
    using that by (simp add: get_job_status_def lookup.rep_eq R(1) lookup_filter_alist_None)
  have some: "get_job_status (table out) jid =
                (if status (heap P r) = Completed \<and>
                    (\<exists>c. completed_at (heap P r) = Some c \<and> now - c > m * 3600000000)
                 then None else Some r)" if "get_job_status P jid = Some r" for jid r
    using that lookup_filter_alist [OF d, of jid r "\<lambda>r. \<not> expired now m (heap P r)"]
    by (simp add: get_job_status_def lookup.rep_eq R(1) expired_explicit)
  have q: "get_job_status (table out) jid = Some r"
    if "get_job_status P jid = Some r \<and> status (heap P r) \<noteq> Completed" for jid r
    using that some [of jid r] by simp
  have b: "get_job_status (table out) jid = Some r"
    if "get_job_status P jid = Some r \<and> status (heap P r) = Completed \<and>
              completed_at (heap P r) = Some c \<and> now - c = m * 3600000000" for jid r c
    using that some [of jid r] by simp
  from out R(1,2) none some q b show ?thesis by blast
qed

text \<open>
  C9, amended. \<^verbatim>\<open>cleanup_old_jobs\<close> has no \<^verbatim>\<open>return\<close> statement: when it does not
  raise, the caller gets \<^verbatim>\<open>None\<close>. The number of removed records, that is, the number
  of entries the table has lost, only appears in the line the function prints, and it
  prints no line when it removed nothing.
\<close>

theorem cleanup_returns_none:
  assumes "cleanup_old_jobs now m P = Inr out"
  shows "returned out = PyNone \<and>
         printed out =
           (if length (DAList.impl_of (jobs P)) - length (DAList.impl_of (jobs (table out))) = 0
            then []
            else [''Cleaned up '' @
                  str_nat (length (DAList.impl_of (jobs P)) - length (DAList.impl_of (jobs (table out)))) @
                  '' old jobs''])"
proof -
  note R = cleanup_old_jobs_Inr [OF assms]
  have "length (filter (\<lambda>(jid, r). expired now m (heap P r)) (DAList.impl_of (jobs P))) =
        length (DAList.impl_of (jobs P)) - length (DAList.impl_of (jobs (table out)))"
    using sum_length_filter_compl [of "\<lambda>x. expired now m (heap P (snd x))" "DAList.impl_of (jobs P)"]
    by (simp add: R(1) case_prod_unfold)
  then show ?thesis by (simp add: R(3,4) Let_def)
qed

subsection \<open>Completed records carry their completion time\<close>

lemma stamped_steps:
  "stamped (mark_processing j)"
  "stamped j \<Longrightarrow> stamped (begin_url idx url j)"
  "stamped j \<Longrightarrow> stamped (add_success idx url res j)"
  "stamped j \<Longrightarrow> stamped (add_error idx url e j)"
  "stamped (mark_completed now j)"
  by (simp_all add: stamped_def mark_processing_eq begin_url_eq add_success_eq add_error_eq
      mark_completed_eq)

lemma stamped_run_url_steps:
  "stamped j \<Longrightarrow> stamped (run (url_steps w gen idx us) j)"
  by (induction us arbitrary: idx j) (simp_all add: stamped_steps split: verdict.split)

lemma stamped_run_worker_steps: "stamped (run (worker_steps w now j) j)"
  by (simp add: worker_steps_def stamped_steps stamped_run_url_steps split: option.split)

lemma all_stamped_new_processor: "all_stamped new_processor"
  by (simp add: all_stamped_def new_processor_def empty.rep_eq)

lemma all_stamped_create_job:
  assumes "all_stamped P"
  shows "all_stamped (snd (create_job us gen clock_ms t P))"
proof -
  have "stamped (new_job jid us gen t)" for jid by (simp add: stamped_def new_job_def)
  moreover have "set (AList.update k v xs) \<subseteq> insert (k, v) (set xs)" for k v and xs :: "(string \<times> ref) list"
    by (induction xs) auto
  ultimately show ?thesis
    using assms
    by (fastforce simp: all_stamped_def create_job_def Let_def update.rep_eq)
qed

lemma all_stamped_process_job:
  assumes "all_stamped P"
  shows "all_stamped (process_job w now jid P)"
proof (cases "get_job_status P jid")
  case None
  with assms show ?thesis by (simp add: process_job_def get_job_status_def)
next
  case (Some r)
  have "stamped (heap (process_job w now jid P) r')" if "stamped (heap P r')" for r'
  proof (cases "r' = r")
    case True
    then show ?thesis
      by (simp add: process_job_heap [OF Some] stamped_run_worker_steps)
  next
    case False
    with that show ?thesis by (simp add: process_job_frame(3) [OF Some])
  qed
  with assms show ?thesis
    by (auto simp: all_stamped_def process_job_frame(1) [OF Some])
qed

lemma all_stamped_cleanup:
  assumes "all_stamped P" and "cleanup_old_jobs now m P = Inr out"
  shows "all_stamped (table out)"
  using assms(1) by (auto simp: all_stamped_def cleanup_old_jobs_Inr(1,2) [OF assms(2)])

subsection \<open>The table of three jobs\<close>

lemma sweep_table_jobs:
  "DAList.impl_of (jobs sweep_table) = [(''job_1'', 0), (''job_2'', 1), (''job_3'', 2)]"
proof -
  let ?P3 = "snd (create_job [''c''] False 3 0
           (snd (create_job [''b''] False 2 0
             (snd (create_job [''a''] False 1 0 new_processor)))))"
  have j: "DAList.impl_of (jobs ?P3) = [(''job_1'', 0), (''job_2'', 1), (''job_3'', 2)]"
    by (simp add: create_job_def Let_def new_processor_def str_int_def str_nat_digit digit_char_def
        update.rep_eq empty.rep_eq)
  have g2: "get_job_status ?P3 ''job_2'' = Some (Suc 0)"
    by (simp add: get_job_status_def lookup.rep_eq j)
  have "get_job_status (process_job quiet_world 1000000 ''job_2'' ?P3) ''job_3'' = Some 2"
    by (simp add: get_job_status_def lookup.rep_eq process_job_frame(1) [OF g2] j)
  from process_job_frame(1) [OF this] show ?thesis
    by (simp add: sweep_table_def process_job_frame(1) [OF g2] j)
qed

lemma sweep_table_heap:
  "status (heap sweep_table 0) = Queued"
  "status (heap sweep_table (Suc 0)) = Completed"
  "completed_at (heap sweep_table (Suc 0)) = Some 1000000"
  "status (heap sweep_table 2) = Completed"
  "completed_at (heap sweep_table 2) = Some 999999"
proof -
  let ?P3 = "snd (create_job [''c''] False 3 0
           (snd (create_job [''b''] False 2 0
             (snd (create_job [''a''] False 1 0 new_processor)))))"
  let ?P4 = "process_job quiet_world 1000000 ''job_2'' ?P3"
  have j: "DAList.impl_of (jobs ?P3) = [(''job_1'', 0), (''job_2'', 1), (''job_3'', 2)]"
    by (simp add: create_job_def Let_def new_processor_def str_int_def str_nat_digit digit_char_def
        update.rep_eq empty.rep_eq)
  have g2: "get_job_status ?P3 ''job_2'' = Some (Suc 0)"
    by (simp add: get_job_status_def lookup.rep_eq j)
  have g3: "get_job_status ?P4 ''job_3'' = Some 2"
    by (simp add: get_job_status_def lookup.rep_eq process_job_frame(1) [OF g2] j)
  have h0: "heap ?P3 0 = new_job ''job_1'' [''a''] False 0"
    by (simp add: create_job_def Let_def new_processor_def str_int_def str_nat_digit digit_char_def)
  show "status (heap sweep_table 0) = Queued"
    by (simp add: sweep_table_def process_job_frame(3) [OF g3] process_job_frame(3) [OF g2]
        h0 new_job_def)
  show "status (heap sweep_table (Suc 0)) = Completed"
    by (simp add: sweep_table_def process_job_frame(3) [OF g3] process_job_heap [OF g2]
        run_worker_steps mark_completed_eq escapes_calm [OF quiet_world_calm])
  show "completed_at (heap sweep_table (Suc 0)) = Some 1000000"
    by (simp add: sweep_table_def process_job_frame(3) [OF g3] process_job_heap [OF g2]
        run_worker_steps mark_completed_eq escapes_calm [OF quiet_world_calm])
  show "status (heap sweep_table 2) = Completed"
    by (simp add: sweep_table_def process_job_heap [OF g3] run_worker_steps mark_completed_eq escapes_calm [OF quiet_world_calm])
  show "completed_at (heap sweep_table 2) = Some 999999"
    by (simp add: sweep_table_def process_job_heap [OF g3] run_worker_steps mark_completed_eq escapes_calm [OF quiet_world_calm])
qed

lemma all_stamped_sweep_table: "all_stamped sweep_table"
  unfolding sweep_table_def
  by (intro all_stamped_process_job all_stamped_create_job all_stamped_new_processor)

lemma sweep_table_get:
  "get_job_status sweep_table ''job_1'' = Some 0"
  "get_job_status sweep_table ''job_2'' = Some (Suc 0)"
  "get_job_status sweep_table ''job_3'' = Some 2"
  by (simp_all add: get_job_status_def lookup.rep_eq sweep_table_jobs)

theorem cleanup_removes_exactly_expired_witness:
  "all_stamped sweep_table \<and>
   status (heap sweep_table 0) = Queued \<and>
   completed_at (heap sweep_table (Suc 0)) = Some 1000000 \<and>
   completed_at (heap sweep_table 2) = Some 999999 \<and>
   (\<exists>out. cleanup_old_jobs 86401000000 24 sweep_table = Inr out \<and>
      DAList.impl_of (jobs (table out)) = [(''job_1'', 0), (''job_2'', 1)] \<and>
      get_job_status (table out) ''job_1'' = Some 0 \<and>
      get_job_status (table out) ''job_2'' = Some 1 \<and>
      get_job_status (table out) ''job_3'' = None)"
proof -
  from cleanup_removes_exactly_expired [OF all_stamped_sweep_table, of 86401000000 24]
  obtain out where out: "cleanup_old_jobs 86401000000 24 sweep_table = Inr out"
    and j: "DAList.impl_of (jobs (table out)) =
             filter (\<lambda>(jid, r). \<not> expired 86401000000 24 (heap sweep_table r))
               (DAList.impl_of (jobs sweep_table))"
    and g: "\<forall>jid r. get_job_status sweep_table jid = Some r \<longrightarrow>
              get_job_status (table out) jid =
                (if status (heap sweep_table r) = Completed \<and>
                    (\<exists>c. completed_at (heap sweep_table r) = Some c \<and> 86401000000 - c > 24 * 3600000000)
                 then None else Some r)"
    by blast
  have "DAList.impl_of (jobs (table out)) = [(''job_1'', 0), (''job_2'', 1)]"
    by (simp add: j sweep_table_jobs expired_explicit sweep_table_heap)
  moreover have "get_job_status (table out) ''job_1'' = Some 0"
    "get_job_status (table out) ''job_2'' = Some 1"
    "get_job_status (table out) ''job_3'' = None"
    using g [rule_format, OF sweep_table_get(1)] g [rule_format, OF sweep_table_get(2)]
      g [rule_format, OF sweep_table_get(3)]
    by (simp_all add: sweep_table_heap)
  ultimately show ?thesis
    using out by (simp add: all_stamped_sweep_table sweep_table_heap)
qed

lemma sweep_table_scan:
  "scan_jobs (heap sweep_table) 86401000000 24 (DAList.impl_of (jobs sweep_table)) = Inr [''job_3'']"
  "scan_jobs (heap sweep_table) 90000000000 24 (DAList.impl_of (jobs sweep_table)) =
     Inr [''job_2'', ''job_3'']"
  by (simp_all add: sweep_table_jobs sweep_table_heap age_hours_def)

lemma sweep_table_cleanup:
  "cleanup_old_jobs 86401000000 24 sweep_table =
     Inr \<lparr> returned = PyNone, printed = [''Cleaned up 1 old jobs''],
           table = sweep_table\<lparr>jobs := DAList.delete ''job_3'' (jobs sweep_table)\<rparr> \<rparr>"
  by (simp add: cleanup_old_jobs_def sweep_table_scan str_nat_digit digit_char_def)

theorem cleanup_returns_none_witness:
  "cleanup_old_jobs 86401000000 24 sweep_table =
     Inr \<lparr> returned = PyNone, printed = [''Cleaned up 1 old jobs''],
           table = sweep_table\<lparr>jobs := DAList.delete ''job_3'' (jobs sweep_table)\<rparr> \<rparr> \<and>
   returned \<lparr> returned = PyNone, printed = [''Cleaned up 1 old jobs''],
           table = sweep_table\<lparr>jobs := DAList.delete ''job_3'' (jobs sweep_table)\<rparr> \<rparr> = PyNone \<and>
   length (DAList.impl_of (jobs sweep_table)) -
     length (DAList.impl_of (DAList.delete ''job_3'' (jobs sweep_table))) = 1"
proof -
  note T = cleanup_returns_none [OF sweep_table_cleanup]
  have len: "length (DAList.impl_of (jobs sweep_table)) -
     length (DAList.impl_of (DAList.delete ''job_3'' (jobs sweep_table))) = 1"
    by (simp add: delete.rep_eq sweep_table_jobs)
  from T len sweep_table_cleanup show ?thesis by simp
qed

theorem cleanup_returns_none_counterexample:
  "cleanup_old_jobs 90000000000 24 sweep_table =
     Inr \<lparr> returned = PyNone, printed = [''Cleaned up 2 old jobs''],
           table = sweep_table\<lparr>jobs :=
             DAList.delete ''job_3'' (DAList.delete ''job_2'' (jobs sweep_table))\<rparr> \<rparr> \<and>
   PyNone \<noteq> PyInt 2 \<and>
   length (DAList.impl_of (jobs sweep_table)) = 3 \<and>
   length (DAList.impl_of
     (DAList.delete ''job_3'' (DAList.delete ''job_2'' (jobs sweep_table)))) = 1"
proof -
  have "cleanup_old_jobs 90000000000 24 sweep_table =
     Inr \<lparr> returned = PyNone, printed = [''Cleaned up 2 old jobs''],
           table = sweep_table\<lparr>jobs :=
             DAList.delete ''job_3'' (DAList.delete ''job_2'' (jobs sweep_table))\<rparr> \<rparr>"
    by (simp add: cleanup_old_jobs_def sweep_table_scan str_nat_digit digit_char_def)
  then show ?thesis
    by (simp add: delete.rep_eq sweep_table_jobs)
qed

subsection \<open>Job ids\<close>

lemma digit_char_inj:
  assumes "a < 10" and "b < 10" and "digit_char a = digit_char b"
  shows "a = b"
proof -
  have "distinct ''0123456789''" by simp
  moreover have "a < length ''0123456789''" "b < length ''0123456789''"
    using assms by simp_all
  ultimately show ?thesis
    using assms(3) unfolding digit_char_def by (simp only: nth_eq_iff_index_eq)
qed

lemma digit_char_in: "d < 10 \<Longrightarrow> digit_char d \<in> set ''0123456789''"
  unfolding digit_char_def by (rule nth_mem) simp

lemma str_nat_not_Nil: "str_nat n \<noteq> []" "[] \<noteq> str_nat n"
  by (subst str_nat.simps, simp)+

lemma str_nat_digits: "set (str_nat n) \<subseteq> set ''0123456789''"
proof (induction n rule: str_nat.induct)
  case (1 n)
  show ?case
  proof (cases "n < 10")
    case True
    then show ?thesis using digit_char_in [of n] by (simp add: str_nat_digit)
  next
    case False
    then have "set (str_nat (n div 10)) \<subseteq> set ''0123456789''" by (rule "1.IH")
    moreover have "digit_char (n mod 10) \<in> set ''0123456789''" by (rule digit_char_in) simp
    ultimately show ?thesis using False by (simp add: str_nat_step)
  qed
qed

lemma str_nat_inj: "str_nat m = str_nat n \<Longrightarrow> m = n"
proof (induction m arbitrary: n rule: str_nat.induct)
  case (1 m)
  show ?case
  proof (cases "m < 10")
    case m: True
    show ?thesis
    proof (cases "n < 10")
      case True
      with m "1.prems" show ?thesis by (simp add: str_nat_digit digit_char_inj)
    next
      case False
      with m "1.prems" show ?thesis by (simp add: str_nat_digit str_nat_step str_nat_not_Nil)
    qed
  next
    case m: False
    show ?thesis
    proof (cases "n < 10")
      case True
      with m "1.prems" show ?thesis by (simp add: str_nat_digit str_nat_step str_nat_not_Nil)
    next
      case False
      with m "1.prems" have e: "str_nat (m div 10) = str_nat (n div 10)"
        "digit_char (m mod 10) = digit_char (n mod 10)"
        by (simp_all add: str_nat_step)
      from "1.IH" [OF m e(1)] have "m div 10 = n div 10" .
      moreover from e(2) have "m mod 10 = n mod 10" by (intro digit_char_inj) simp_all
      ultimately show ?thesis by (metis div_mult_mod_eq)
    qed
  qed
qed

lemma str_nat_no_minus: "str_nat n \<noteq> CHR ''-'' # s"
proof
  assume "str_nat n = CHR ''-'' # s"
  then have "CHR ''-'' \<in> set (str_nat n)" by simp
  with str_nat_digits [of n] show False by auto
qed

lemma str_int_inj: "str_int a = str_int b \<Longrightarrow> a = b"
proof -
  assume e: "str_int a = str_int b"
  consider "a < 0" "b < 0" | "a < 0" "\<not> b < 0" | "\<not> a < 0" "b < 0" | "\<not> a < 0" "\<not> b < 0"
    by blast
  then show ?thesis
  proof cases
    case 1
    with e have "nat (- a) = nat (- b)" by (simp add: str_int_def str_nat_inj)
    with 1 show ?thesis by simp
  next
    case 2
    with e str_nat_no_minus [of "nat b" "str_nat (nat (- a))"] show ?thesis
      by (simp add: str_int_def)
  next
    case 3
    with e str_nat_no_minus [of "nat a" "str_nat (nat (- b))"] show ?thesis
      by (simp add: str_int_def)
  next
    case 4
    with e have "nat a = nat b" by (simp add: str_int_def str_nat_inj)
    with 4 show ?thesis by simp
  qed
qed

lemma job_id_eq_iff:
  "fst (create_job us gen ms t P) = fst (create_job us' gen' ms' t' P') \<longleftrightarrow> ms = ms'"
  by (auto simp: create_job_def Let_def dest: str_int_inj)

lemma map_fst_update_present:
  "k \<in> fst ` set xs \<Longrightarrow> map fst (AList.update k v xs) = map fst xs"
  by (induction xs) auto

text \<open>
  C6, amended. The id is \<open>job_\<close> followed by the millisecond clock reading, so two
  calls of \<^verbatim>\<open>create_job\<close> return the same id exactly when they read the same
  millisecond. Of two successive calls with different readings, each has its own id and
  its own record in the table. With the same reading both return one id; the table then
  holds the second record under it, the first is no longer reachable from the table, and
  the table has no more keys than after the first call.
\<close>

theorem job_ids_follow_the_clock:
  assumes "create_job us1 gen1 ms1 t1 P = (jid1, P1)"
    and "create_job us2 gen2 ms2 t2 P1 = (jid2, P2)"
  shows "(jid1 = jid2 \<longleftrightarrow> ms1 = ms2) \<and>
         (fst (create_job us gen ms1 t P') = fst (create_job us' gen' ms2 t' P'') \<longleftrightarrow> ms1 = ms2) \<and>
         heap P2 (next_ref P) = new_job jid1 us1 gen1 t1 \<and>
         heap P2 (Suc (next_ref P)) = new_job jid2 us2 gen2 t2 \<and>
         get_job_status P2 jid2 = Some (Suc (next_ref P)) \<and>
         get_job_status P2 jid1 = (if ms1 = ms2 then Some (Suc (next_ref P)) else Some (next_ref P)) \<and>
         (ms1 = ms2 \<longrightarrow>
            map fst (DAList.impl_of (jobs P2)) = map fst (DAList.impl_of (jobs P1)))"
proof -
  note R1 = create_job_registers [OF assms(1)]
  note R2 = create_job_registers [OF assms(2)]
  have n1: "next_ref P1 = Suc (next_ref P)"
    using assms(1) by (auto simp: create_job_def Let_def)
  have h: "heap P2 = (heap P1)(Suc (next_ref P) := new_job jid2 us2 gen2 t2)"
    and jb: "jobs P2 = DAList.update jid2 (Suc (next_ref P)) (jobs P1)"
    using assms(2) n1 R2(1) by (auto simp: create_job_def Let_def)
  have ids: "jid1 = jid2 \<longleftrightarrow> ms1 = ms2"
    using str_int_inj by (auto simp: R1(1) R2(1))
  have A: "fst (create_job us gen ms1 t P') = fst (create_job us' gen' ms2 t' P'') \<longleftrightarrow> ms1 = ms2"
    by (rule job_id_eq_iff)
  have B: "heap P2 (next_ref P) = new_job jid1 us1 gen1 t1"
    by (simp add: h R1(3))
  have C: "heap P2 (Suc (next_ref P)) = new_job jid2 us2 gen2 t2"
    by (simp add: h)
  have D: "get_job_status P2 jid2 = Some (Suc (next_ref P))"
    using R2(2) n1 by simp
  have E: "get_job_status P2 jid1 = (if ms1 = ms2 then Some (Suc (next_ref P)) else Some (next_ref P))"
    using R1(2) ids by (auto simp: get_job_status_def jb)
  have in1: "jid1 \<in> fst ` set (DAList.impl_of (jobs P1))"
    using R1(2) by (auto simp: get_job_status_def lookup.rep_eq dest: map_of_SomeD intro: rev_image_eqI)
  have F: "map fst (DAList.impl_of (jobs P2)) = map fst (DAList.impl_of (jobs P1))" if "ms1 = ms2"
    using that ids in1 by (simp add: jb update.rep_eq map_fst_update_present)
  from ids A B C D E F show ?thesis by simp
qed


theorem job_ids_follow_the_clock_witness:
  "fst (create_job [''a''] False 5 0 new_processor) = ''job_5'' \<and>
   fst (create_job [''b''] False 6 1 (snd (create_job [''a''] False 5 0 new_processor))) = ''job_6'' \<and>
   ''job_5'' \<noteq> ''job_6'' \<and>
   get_job_status (snd (create_job [''b''] False 6 1 (snd (create_job [''a''] False 5 0 new_processor))))
     ''job_5'' = Some 0 \<and>
   get_job_status (snd (create_job [''b''] False 6 1 (snd (create_job [''a''] False 5 0 new_processor))))
     ''job_6'' = Some (Suc 0)"
proof -
  let ?P1 = "snd (create_job [''a''] False 5 0 new_processor)"
  let ?P2 = "snd (create_job [''b''] False 6 1 ?P1)"
  have c1: "create_job [''a''] False 5 0 new_processor = (''job_5'', ?P1)"
    by (rule create_job_digit(1))
  have c2: "create_job [''b''] False 6 1 ?P1 = (''job_6'', ?P2)"
    by (simp add: create_job_def Let_def str_int_def str_nat_digit digit_char_def)
  from job_ids_follow_the_clock [OF c1 c2]
  have "(''job_5'' = ''job_6'' \<longleftrightarrow> (5::int) = 6) \<and>
        get_job_status ?P2 ''job_6'' = Some (Suc (next_ref new_processor)) \<and>
        get_job_status ?P2 ''job_5'' =
          (if (5::int) = 6 then Some (Suc (next_ref new_processor)) else Some (next_ref new_processor))"
    by blast
  moreover have "next_ref new_processor = 0" by (simp add: new_processor_def)
  moreover have "fst (create_job [''a''] False 5 0 new_processor) = ''job_5''"
    "fst (create_job [''b''] False 6 1 ?P1) = ''job_6''"
    by (simp_all add: create_job_def Let_def str_int_def str_nat_digit digit_char_def)
  ultimately show ?thesis by simp
qed

theorem job_ids_follow_the_clock_counterexample:
  "fst (create_job [''a''] False 5 0 new_processor) = ''job_5'' \<and>
   fst (create_job [''b''] False 5 1 (snd (create_job [''a''] False 5 0 new_processor))) = ''job_5'' \<and>
   DAList.impl_of
     (jobs (snd (create_job [''b''] False 5 1 (snd (create_job [''a''] False 5 0 new_processor))))) =
     [(''job_5'', Suc 0)] \<and>
   urls (heap (snd (create_job [''b''] False 5 1 (snd (create_job [''a''] False 5 0 new_processor))))
     (Suc 0)) = [''b'']"
  by (simp add: create_job_def Let_def new_processor_def str_int_def str_nat_digit digit_char_def
      update.rep_eq empty.rep_eq new_job_def)

subsection \<open>What \<^verbatim>\<open>get_job_status\<close> hands out\<close>

lemma update_job_frame:
  "jobs (update_job r f P) = jobs P"
  "next_ref (update_job r f P) = next_ref P"
  "heap (update_job r f P) r = f (heap P r)"
  "r' \<noteq> r \<Longrightarrow> heap (update_job r f P) r' = heap P r'"
  "get_job_status (update_job r f P) jid = get_job_status P jid"
  by (simp_all add: update_job_def get_job_status_def)

text \<open>
  C5, amended. For a known id \<^verbatim>\<open>get_job_status\<close> returns the reference that the table
  holds, not a copy. Every later update of the record, be it a locked block of the
  worker or an assignment by the caller through the returned dict, is seen through the
  returned reference and through the table alike: the table still maps the id to that
  reference and the object behind it is the updated record. After the worker has run,
  the dict returned before shows what the worker left: the completed job, or the job
  still in status \<open>Processing\<close> when an exception has left the worker.
\<close>

theorem get_job_status_returns_live_reference:
  assumes "get_job_status P jid = Some r"
  shows "DAList.lookup (jobs P) jid = Some r \<and>
         get_job_status (update_job r f P) jid = Some r \<and>
         heap (update_job r f P) r = f (heap P r) \<and>
         get_job_status (process_job w now jid P) jid = Some r \<and>
         heap (process_job w now jid P) r = run (worker_steps w now (heap P r)) (heap P r) \<and>
         status (heap (process_job w now jid P) r) =
           (case escapes w (generate_observations (heap P r)) 1 (urls (heap P r)) of
              None \<Rightarrow> Completed
            | Some e \<Rightarrow> Processing)"
  using assms
  by (simp add: get_job_status_def update_job_frame process_job_heap [OF assms]
      process_job_frame(1) [OF assms] run_worker_steps mark_completed_eq job_after_fields
      split: option.split)

theorem get_job_status_returns_live_reference_witness:
  "get_job_status (snd (create_job [''a''] False 5 0 new_processor)) ''job_5'' = Some 0 \<and>
   get_job_status (update_job 0 caller_write (snd (create_job [''a''] False 5 0 new_processor)))
     ''job_5'' = Some 0 \<and>
   current_url (heap (update_job 0 caller_write (snd (create_job [''a''] False 5 0 new_processor))) 0) =
     Some ''edited by the caller''"
proof -
  from get_job_status_returns_live_reference [where f = caller_write, OF create_job_digit(2)]
  have "get_job_status (update_job 0 caller_write (snd (create_job [''a''] False 5 0 new_processor)))
     ''job_5'' = Some 0"
    and "heap (update_job 0 caller_write (snd (create_job [''a''] False 5 0 new_processor))) 0 =
      caller_write (heap (snd (create_job [''a''] False 5 0 new_processor)) 0)"
    by blast+
  then show ?thesis by (simp add: create_job_digit(2) caller_write_def)
qed

theorem get_job_status_returns_live_reference_counterexample:
  "get_job_status (snd (create_job [''a''] False 5 0 new_processor)) ''job_5'' = Some 0 \<and>
   status (heap (snd (create_job [''a''] False 5 0 new_processor)) 0) = Queued \<and>
   results (heap (snd (create_job [''a''] False 5 0 new_processor)) 0) = [] \<and>
   status (heap (process_job quiet_world 9 ''job_5''
     (snd (create_job [''a''] False 5 0 new_processor))) 0) = Completed \<and>
   results (heap (process_job quiet_world 9 ''job_5''
     (snd (create_job [''a''] False 5 0 new_processor))) 0) =
     [Success ''a'' (sample_result\<lparr>output_file := Some ''diagnosis_site.json'', saved := Some True\<rparr>)] \<and>
   current_url (heap (snd (create_job [''a''] False 5 0 new_processor)) 0) = None \<and>
   get_job_status (update_job 0 caller_write (snd (create_job [''a''] False 5 0 new_processor)))
     ''job_5'' = Some 0 \<and>
   current_url (heap (update_job 0 caller_write (snd (create_job [''a''] False 5 0 new_processor))) 0) =
     Some ''edited by the caller''"
proof -
  note esc = escapes_calm [OF quiet_world_calm, of False 1 "[''a'']"]
  have o: "outcomes quiet_world False 1 [''a''] =
     [Success ''a'' (sample_result\<lparr>output_file := Some ''diagnosis_site.json'', saved := Some True\<rparr>)]"
    by (simp add: recorded_def try_url_def attempt_def save_result_def add_observation_def
        quiet_world_def)
  note F = final_job_fields [OF create_job_digit(2) create_job_digit(3) esc]
  show ?thesis unfolding F o
    by (simp add: create_job_digit(2,3) new_job_def update_job_frame caller_write_def)
qed

end
